theory Spec2Isabelle
  imports Complex_Main "HOL-Library.Word" "HOL-Library.AList"
begin

section \<open>JavaScript values used by the client\<close>

text \<open>
  A JavaScript string is a sequence of UTF-16 code units. ASCII literals of the source
  are written through \<open>js\<close>; the literal of the rate-limit message starts with the two
  code units U+26A0 U+FE0F, which are written out.
\<close>

type_synonym jsstring = "16 word list"

definition js :: "string \<Rightarrow> jsstring" where
  "js s = map of_char s"

text \<open>
  \<open>String.prototype.trim\<close> removes the code units of WhiteSpace and LineTerminator
  (ECMAScript) from both ends.
\<close>

definition isWhiteSpace :: "16 word \<Rightarrow> bool" where
  "isWhiteSpace c \<longleftrightarrow>
     c \<in> set [0x0009, 0x000A, 0x000B, 0x000C, 0x000D, 0x0020, 0x00A0, 0x1680,
              0x2000, 0x2001, 0x2002, 0x2003, 0x2004, 0x2005, 0x2006, 0x2007,
              0x2008, 0x2009, 0x200A, 0x2028, 0x2029, 0x202F, 0x205F, 0x3000, 0xFEFF]"

definition trim :: "jsstring \<Rightarrow> jsstring" where
  "trim s = rev (dropWhile isWhiteSpace (rev (dropWhile isWhiteSpace s)))"

text \<open>
  The numbers the countdown handles: \<open>retrySeconds\<close> starts as \<open>null\<close>, a payload
  without the field reads as \<open>undefined\<close>, and arithmetic on \<open>undefined\<close> gives
  \<open>NaN\<close>. \<open>Num n\<close> is the double of the integer value \<open>n\<close>; numbers with a
  fraction are outside this model, and so is an \<open>n\<close> that no double has as its value
  (every integer up to \<open>2 ^ 53\<close> is the value of one).
\<close>

datatype jsnum = Undefined | Null | NaN | Num int

text \<open>\<open>!x\<close> on such a value.\<close>

fun falsy :: "jsnum \<Rightarrow> bool" where
  "falsy Undefined = True"
| "falsy Null = True"
| "falsy NaN = True"
| "falsy (Num n) = (n = 0)"

text \<open>The relational operators \<open>x <= k\<close> and \<open>x > k\<close> after \<open>ToNumber\<close>.\<close>

fun toNumber :: "jsnum \<Rightarrow> int option" where
  "toNumber Undefined = None"
| "toNumber Null = Some 0"
| "toNumber NaN = None"
| "toNumber (Num n) = Some n"

definition js_le :: "jsnum \<Rightarrow> int \<Rightarrow> bool" where
  "js_le x k = (case toNumber x of None \<Rightarrow> False | Some n \<Rightarrow> n \<le> k)"

definition js_gt :: "jsnum \<Rightarrow> int \<Rightarrow> bool" where
  "js_gt x k = (case toNumber x of None \<Rightarrow> False | Some n \<Rightarrow> n > k)"

text \<open>
  Arithmetic on doubles. The result of \<open>/\<close> and of \<open>-\<close> is the exact result rounded
  to the nearest number with a significand of 53 bits, ties to the even significand
  (IEEE 754 binary64; overflow and subnormal numbers, far from every value here, are left
  out). \<open>exponent x\<close> is the \<open>e\<close> with \<open>2 ^ e \<le> x < 2 ^ (e + 1)\<close> for a positive
  \<open>x\<close>, found from the number of bits of \<open>\<lfloor>x\<rfloor>\<close>, or of \<open>\<lfloor>1 / x\<rfloor>\<close> below one.
\<close>

fun bits :: "nat \<Rightarrow> nat" where
  "bits n = (if n = 0 then 0 else Suc (bits (n div 2)))"

declare bits.simps [simp del]

definition exponent :: "rat \<Rightarrow> int" where
  "exponent x =
     (if 1 \<le> x then int (bits (nat \<lfloor>x\<rfloor>)) - 1
      else (let l = int (bits (nat \<lfloor>1 / x\<rfloor>))
            in if x = 2 powi (1 - l) then 1 - l else - l))"

definition round_half_even :: "rat \<Rightarrow> int" where
  "round_half_even y =
     (let f = \<lfloor>y\<rfloor>; d = y - of_int f
      in if d < 1 / 2 then f
         else if 1 / 2 < d then f + 1
         else if even f then f else f + 1)"

definition toDouble :: "rat \<Rightarrow> rat" where
  "toDouble x =
     (if x = 0 then 0
      else (let u = 2 powi (exponent \<bar>x\<bar> - 52)
            in sgn x * of_int (round_half_even (\<bar>x\<bar> / u)) * u))"

text \<open>
  \<open>x - k\<close> on integer values: the rounded difference of two integers is an integer,
  which the floor reads off.
\<close>

definition js_minus :: "jsnum \<Rightarrow> int \<Rightarrow> jsnum" where
  "js_minus x k =
     (case toNumber x of
        None \<Rightarrow> NaN
      | Some n \<Rightarrow> Num \<lfloor>toDouble (of_int (n - k))\<rfloor>)"

text \<open>
  \<open>Number.prototype.toString()\<close> on an integer: its decimal digits. This is what the
  source gives for an integer below \<open>2 ^ 53\<close>; for a larger one the source gives the
  shortest digits that read back as the same double, padded with zeros, which is not
  modelled, and no statement below applies \<open>toString\<close> there.
\<close>

fun digits :: "nat \<Rightarrow> jsstring" where
  "digits n = (if n < 10 then [of_nat (48 + n)]
               else digits (n div 10) @ [of_nat (48 + n mod 10)])"

declare digits.simps [simp del]

definition toString :: "int \<Rightarrow> jsstring" where
  "toString i = (if i < 0 then js ''-'' @ digits (nat (- i)) else digits (nat i))"

text \<open>
  \<open>String.prototype.padStart(targetLength, padString)\<close>: the pad string is repeated
  and truncated to fill the missing length.
\<close>

definition padStart :: "nat \<Rightarrow> jsstring \<Rightarrow> jsstring \<Rightarrow> jsstring" where
  "padStart targetLength padString s =
     (if targetLength \<le> length s \<or> padString = [] then s
      else take (targetLength - length s)
             (concat (replicate (targetLength - length s) padString)) @ s)"

section \<open>The quota countdown (ChatInterface)\<close>

text \<open>
  \<open>formatTime\<close>. Past the guard \<open>seconds\<close> is a positive number. The quotients are
  rounded as doubles before \<open>Math.floor\<close>; \<open>%\<close> on positive numbers is exact and is
  \<open>mod\<close>.
\<close>

definition formatTime :: "jsnum \<Rightarrow> jsstring" where
  "formatTime seconds =
     (if falsy seconds \<or> js_le seconds 0 then js ''00h 00m 00s''
      else (case seconds of
              Num n \<Rightarrow>
                (let h = \<lfloor>toDouble (of_int n / 3600)\<rfloor>;
                     m = \<lfloor>toDouble (of_int (n mod 3600) / 60)\<rfloor>;
                     s = n mod 60
                 in padStart 2 (js ''0'') (toString h) @ js ''h '' @
                    padStart 2 (js ''0'') (toString m) @ js ''m '' @
                    padStart 2 (js ''0'') (toString s) @ js ''s'')
            | _ \<Rightarrow> js ''00h 00m 00s''))"

section \<open>Messages, sessions and local storage (App)\<close>

datatype role = User | Assistant | Error

text \<open>A message is the object literal \<open>{ role, content }\<close>; no other property is ever set.\<close>

record message =
  role :: role
  content :: jsstring

definition role_name :: "role \<Rightarrow> jsstring" where
  "role_name r = (case r of User \<Rightarrow> js ''user'' | Assistant \<Rightarrow> js ''assistant''
                  | Error \<Rightarrow> js ''error'')"

text \<open>Reading a property of a message object: a property it does not have is undefined.\<close>

definition message_get :: "message \<Rightarrow> string \<Rightarrow> jsstring option" where
  "message_get m p =
     (if p = ''role'' then Some (role_name (role m))
      else if p = ''content'' then Some (content m)
      else None)"

text \<open>An entry of the session catalog \<open>sessions\<close>.\<close>

record session =
  s_id :: jsstring
  s_timestamp :: jsstring
  s_messageCount :: int
  s_preview :: jsstring

text \<open>
  The object \<open>sessionMessages\<close> maps a session id to its transcript: an association
  list in key order. A \<open>null\<close> session id used as a property key is the string
  \<open>"null"\<close>.
\<close>

type_synonym transcripts = "(jsstring \<times> message list) list"

definition propertyKey :: "jsstring option \<Rightarrow> jsstring" where
  "propertyKey k = (case k of None \<Rightarrow> js ''null'' | Some s \<Rightarrow> s)"

text \<open>A nullable string in a condition: \<open>null\<close> and \<open>''\<close> are falsy.\<close>

definition truthy :: "jsstring option \<Rightarrow> bool" where
  "truthy k = (case k of None \<Rightarrow> False | Some s \<Rightarrow> s \<noteq> [])"

text \<open>
  A key of \<open>localStorage\<close>: absent, holding text that \<open>JSON.parse\<close> rejects, or holding
  a value.
\<close>

datatype 'a stored = Absent | Corrupt | Stored 'a

record localStorage =
  ai_tutor_session :: "jsstring option"
  ai_tutor_messages :: "transcripts stored"
  ai_tutor_sessions :: "session list stored"

datatype tab = ChatTab | DocumentsTab

record app =
  sessionId :: "jsstring option"
  activeTab :: tab
  currentEmotion :: jsstring
  isMascotSpeaking :: bool
  currentResponse :: jsstring
  sessionMessages :: transcripts
  sessions :: "session list"
  showSessionList :: bool
  storage :: localStorage
  pendingResets :: nat

text \<open>
  The state of the first render over a given storage, and the mount effect that loads
  the three keys. A key that does not parse leaves its state as it is.
\<close>

definition app_init :: "localStorage \<Rightarrow> app" where
  "app_init st =
     \<lparr> sessionId = None, activeTab = ChatTab, currentEmotion = js ''neutral'',
       isMascotSpeaking = False, currentResponse = [], sessionMessages = [],
       sessions = [], showSessionList = False, storage = st, pendingResets = 0 \<rparr>"

definition app_load :: "app \<Rightarrow> app" where
  "app_load a =
     (let st = storage a;
          a1 = (if truthy (ai_tutor_session st) then a\<lparr>sessionId := ai_tutor_session st\<rparr>
                else a);
          a2 = (case ai_tutor_messages st of
                  Stored m \<Rightarrow> a1\<lparr>sessionMessages := m\<rparr>
                | _ \<Rightarrow> a1)
      in (case ai_tutor_sessions st of
            Stored parsed \<Rightarrow>
              a2\<lparr>sessions := filter (\<lambda>s. s_messageCount s > 0) parsed\<rparr>
          | _ \<Rightarrow> a2))"

text \<open>
  The two persistence effects, run after a render that changed their dependency. What
  they write is a function of the state alone, so running them after every handler
  stores the same values.
\<close>

definition persist_messages :: "app \<Rightarrow> app" where
  "persist_messages a =
     (if length (sessionMessages a) > 0
      then a\<lparr>storage := (storage a)\<lparr>ai_tutor_messages := Stored (sessionMessages a)\<rparr>\<rparr>
      else a)"

text \<open>What the catalog effect writes in a state, if it writes.\<close>

definition catalog_write :: "app \<Rightarrow> session list option" where
  "catalog_write a =
     (if length (sessions a) > 0
      then (let validSessions = filter (\<lambda>s. s_messageCount s > 0) (sessions a)
            in if length validSessions > 0 then Some validSessions else None)
      else None)"

definition persist_sessions :: "app \<Rightarrow> app" where
  "persist_sessions a =
     (case catalog_write a of
        Some validSessions \<Rightarrow>
          a\<lparr>storage := (storage a)\<lparr>ai_tutor_sessions := Stored validSessions\<rparr>\<rparr>
      | None \<Rightarrow> a)"

definition app_effects :: "app \<Rightarrow> app" where
  "app_effects a = persist_sessions (persist_messages a)"

text \<open>
  Mounting App: the persistence effects of the first render see the initial state, the
  load sets the state from the storage, and the render that follows runs the
  persistence effects on the loaded state. This is the mount of App alone, which takes
  the session id that the storage holds. On the page the chat tab is open at the first
  render, and the session effect of ChatInterface, which runs before the load of App
  and sees no session id, writes a new id over the stored one: there a start is this
  mount followed by \<open>handleLoadSession\<close> of that new id, which the session operations
  below cover.
\<close>

definition app_mount :: "localStorage \<Rightarrow> app" where
  "app_mount st = app_effects (app_load (app_effects (app_init st)))"

subsection \<open>Session handlers\<close>

text \<open>
  \<open>handleNewSession\<close> reads \<open>sessionId\<close>, \<open>sessionMessages\<close> and \<open>sessions\<close> from
  the render it was created in (\<open>r\<close>), while \<open>setSessions(prev => ...)\<close> updates the
  state as it is when the update runs (\<open>a\<close>). The two differ when
  \<open>handleDeleteSession\<close> calls it after queueing its own updates. The timestamp
  \<open>now\<close> and the generated identifier \<open>newSessionId\<close> come from the clock and the
  random source.
\<close>

definition handleNewSession_in :: "app \<Rightarrow> jsstring \<Rightarrow> jsstring \<Rightarrow> app \<Rightarrow> app" where
  "handleNewSession_in r now newSessionId a =
     (let a1 =
        (case sessionId r of
           None \<Rightarrow> a
         | Some sid \<Rightarrow>
             if sid = [] then a
             else (case map_of (sessionMessages r) sid of
                     None \<Rightarrow> a
                   | Some ms \<Rightarrow>
                       (case ms of
                          [] \<Rightarrow> a
                        | m0 # _ \<Rightarrow>
                            (case find (\<lambda>s. s_id s = sid) (sessions r) of
                               Some existingSession \<Rightarrow> a
                             | None \<Rightarrow>
                                 a\<lparr>sessions :=
                                     \<lparr> s_id = sid, s_timestamp = now,
                                       s_messageCount = int (length ms),
                                       s_preview = take 50 (content m0) @ js ''...'' \<rparr>
                                     # sessions a\<rparr>))))
      in a1\<lparr> sessionId := Some newSessionId,
             storage := (storage a1)\<lparr>ai_tutor_session := Some newSessionId\<rparr>,
             currentEmotion := js ''neutral'',
             currentResponse := [],
             isMascotSpeaking := False,
             activeTab := ChatTab \<rparr>)"

definition handleNewSession :: "jsstring \<Rightarrow> jsstring \<Rightarrow> app \<Rightarrow> app" where
  "handleNewSession now newSessionId a = handleNewSession_in a now newSessionId a"

definition handleLoadSession :: "jsstring \<Rightarrow> app \<Rightarrow> app" where
  "handleLoadSession loadSessionId a =
     a\<lparr> sessionId := Some loadSessionId,
        storage := (storage a)\<lparr>ai_tutor_session := Some loadSessionId\<rparr>,
        showSessionList := False,
        activeTab := ChatTab,
        currentEmotion := js ''neutral'',
        currentResponse := [],
        isMascotSpeaking := False \<rparr>"

definition handleDeleteSession :: "jsstring \<Rightarrow> jsstring \<Rightarrow> jsstring \<Rightarrow> app \<Rightarrow> app" where
  "handleDeleteSession deleteSessionId now newSessionId a =
     (let a1 = a\<lparr> sessions := filter (\<lambda>s. s_id s \<noteq> deleteSessionId) (sessions a),
                   sessionMessages := AList.delete deleteSessionId (sessionMessages a) \<rparr>
      in if Some deleteSessionId = sessionId a
         then handleNewSession_in a now newSessionId a1
         else a1)"

text \<open>
  \<open>updateSessionMessages\<close> writes under the \<open>sessionId\<close> of the render that created
  it, given here as \<open>sid\<close>; the spread keeps the other keys and their order.
\<close>

definition updateSessionMessages :: "jsstring option \<Rightarrow> message list \<Rightarrow> app \<Rightarrow> app" where
  "updateSessionMessages sid newMessages a =
     a\<lparr>sessionMessages := AList.update (propertyKey sid) newMessages (sessionMessages a)\<rparr>"

text \<open>
  \<open>handleSpeakingChange\<close>: when speaking stops a timeout of 300 ms is queued that
  resets the mascot; \<open>pendingResets\<close> counts the queued timeouts and
  \<open>reset_timeout\<close> is one of them firing.
\<close>

definition handleSpeakingChange :: "bool \<Rightarrow> app \<Rightarrow> app" where
  "handleSpeakingChange speaking a =
     (let a1 = a\<lparr>isMascotSpeaking := speaking\<rparr>
      in if \<not> speaking then a1\<lparr>pendingResets := Suc (pendingResets a1)\<rparr> else a1)"

definition reset_timeout :: "app \<Rightarrow> app" where
  "reset_timeout a =
     (if pendingResets a = 0 then a
      else a\<lparr> currentEmotion := js ''neutral'', currentResponse := [],
              pendingResets := pendingResets a - 1 \<rparr>)"

definition handleEmotionChange :: "jsstring \<Rightarrow> app \<Rightarrow> app" where
  "handleEmotionChange emotion a = a\<lparr>currentEmotion := emotion\<rparr>"

definition handleResponseChange :: "jsstring \<Rightarrow> app \<Rightarrow> app" where
  "handleResponseChange response a = a\<lparr>currentResponse := response\<rparr>"

text \<open>The \<open>messages\<close> prop of ChatInterface: \<open>sessionMessages[sessionId] || []\<close>.\<close>

definition safeMessages :: "app \<Rightarrow> message list" where
  "safeMessages a =
     (case map_of (sessionMessages a) (propertyKey (sessionId a)) of
        None \<Rightarrow> [] | Some ms \<Rightarrow> ms)"

section \<open>ChatInterface\<close>

typedecl voice

text \<open>A \<open>SpeechSynthesisUtterance\<close> as \<open>speakText\<close> configures it.\<close>

record utterance =
  u_text :: jsstring
  u_voice :: "voice option"
  u_rate :: real
  u_pitch :: real

text \<open>
  The state of one mounted ChatInterface. \<open>timer\<close> tells whether the interval of the
  countdown effect is set, \<open>recognitionRef\<close> whether the browser gave a recognition
  instance, and \<open>synth\<close> is the utterance queue of \<open>window.speechSynthesis\<close>
  (\<open>speak\<close> appends to it, \<open>cancel\<close> empties it). The list \<open>voices\<close> of the
  selector and the storage key of the auto-speak preference, which is read once at
  mount, are left out.
\<close>

record chat =
  inputValue :: jsstring
  isLoading :: bool
  selectedModel :: jsstring
  showQuotaPopup :: bool
  retrySeconds :: jsnum
  countdown :: jsstring
  timer :: bool
  isListening :: bool
  recognitionRef :: bool
  isSpeaking :: bool
  selectedVoice :: "voice option"
  speechRate :: real
  currentUtteranceRef :: "utterance option"
  autoSpeak :: bool
  synth :: "utterance list"

subsection \<open>Countdown\<close>

text \<open>
  The two effects on \<open>retrySeconds\<close>: the interval exists exactly while the popup is
  shown and \<open>retrySeconds > 0\<close> (the cleanup clears the previous one), and the display
  is \<open>formatTime(retrySeconds)\<close>.
\<close>

definition countdown_effects :: "chat \<Rightarrow> chat" where
  "countdown_effects c =
     c\<lparr> timer := (showQuotaPopup c \<and> js_gt (retrySeconds c) 0),
        countdown := formatTime (retrySeconds c) \<rparr>"

text \<open>One firing of the interval: the updater of \<open>setRetrySeconds\<close>, then the effects.\<close>

definition tick :: "chat \<Rightarrow> chat" where
  "tick c =
     (if timer c
      then countdown_effects
             (c\<lparr>retrySeconds :=
                  (if js_le (retrySeconds c) 1 then Num 0 else js_minus (retrySeconds c) 1)\<rparr>)
      else c)"

text \<open>Closing the popup: \<open>setShowQuotaPopup(false)\<close>.\<close>

definition closePopup :: "chat \<Rightarrow> chat" where
  "closePopup c = countdown_effects (c\<lparr>showQuotaPopup := False\<rparr>)"

text \<open>
  The first render and its effects. The parameters are what the browser provides: a
  recognition instance or none, the saved auto-speak preference, and the default voice.
\<close>

definition chat_init :: "bool \<Rightarrow> bool option \<Rightarrow> voice option \<Rightarrow> chat" where
  "chat_init hasRecognition saved defaultVoice =
     countdown_effects
       \<lparr> inputValue = [], isLoading = False, selectedModel = js ''gemini-2.5-flash'',
         showQuotaPopup = False, retrySeconds = Null, countdown = [], timer = False,
         isListening = False, recognitionRef = hasRecognition, isSpeaking = False,
         selectedVoice = defaultVoice, speechRate = 1,
         currentUtteranceRef = None,
         autoSpeak = (case saved of None \<Rightarrow> True | Some b \<Rightarrow> b),
         synth = [] \<rparr>"

subsection \<open>Speech capture\<close>

text \<open>\<open>startOk\<close> tells whether \<open>recognition.start()\<close> returns rather than throws.\<close>

definition toggleListening :: "bool \<Rightarrow> chat \<Rightarrow> chat" where
  "toggleListening startOk c =
     (if \<not> recognitionRef c then c
      else if isListening c then c
      else if startOk then c\<lparr>isListening := True\<rparr> else c)"

text \<open>The results of a recognition event from \<open>resultIndex\<close> on: transcript and \<open>isFinal\<close>.\<close>

definition handleResult :: "(jsstring \<times> bool) list \<Rightarrow> chat \<Rightarrow> chat" where
  "handleResult results c =
     (let finalTranscript =
            concat (map (\<lambda>(transcript, isFinal). if isFinal then transcript @ js '' '' else [])
                        results)
      in if finalTranscript \<noteq> [] then c\<lparr>inputValue := inputValue c @ finalTranscript\<rparr>
         else c)"

definition handleError :: "chat \<Rightarrow> chat" where
  "handleError c = c\<lparr>isListening := False\<rparr>"

definition handleEnd :: "chat \<Rightarrow> chat" where
  "handleEnd c = c\<lparr>isListening := False\<rparr>"

subsection \<open>Speech playback\<close>

text \<open>
  \<open>speakText\<close> is memoised on \<open>selectedVoice\<close>, \<open>speechRate\<close> and \<open>autoSpeak\<close>: a
  caller holds the values of the render it got the function from.
\<close>

record speak_closure =
  cl_selectedVoice :: "voice option"
  cl_speechRate :: real
  cl_autoSpeak :: bool

definition speak_closure_of :: "chat \<Rightarrow> speak_closure" where
  "speak_closure_of c =
     \<lparr> cl_selectedVoice = selectedVoice c, cl_speechRate = speechRate c,
       cl_autoSpeak = autoSpeak c \<rparr>"

text \<open>
  \<open>removeMd\<close> is the markup stripper of the library remove-markdown, taken as a
  parameter. \<open>onSpeakingChange\<close> is \<open>handleSpeakingChange\<close> of App.
\<close>

definition speakText ::
  "(jsstring \<Rightarrow> jsstring) \<Rightarrow> speak_closure \<Rightarrow> jsstring \<Rightarrow> bool \<Rightarrow> bool \<Rightarrow> app \<times> chat
     \<Rightarrow> app \<times> chat" where
  "speakText removeMd cl text forceSpeak isToggle ac =
     (case ac of (a, c) \<Rightarrow>
        (let interrupting = (currentUtteranceRef c \<noteq> None);
             a1 = (if interrupting then handleSpeakingChange False a else a);
             c1 = (if interrupting
                   then c\<lparr>synth := [], isSpeaking := False, currentUtteranceRef := None\<rparr>
                   else c)
         in if interrupting \<and> isToggle then (a1, c1)
            else if \<not> cl_autoSpeak cl \<and> \<not> forceSpeak then (a1, c1)
            else if text = [] \<or> trim text = [] then (a1, c1)
            else (let utterance =
                        \<lparr> u_text = removeMd text, u_voice = cl_selectedVoice cl,
                          u_rate = cl_speechRate cl, u_pitch = 1 \<rparr>
                  in (a1, c1\<lparr> currentUtteranceRef := Some utterance,
                              synth := synth c1 @ [utterance] \<rparr>))))"

text \<open>
  The handlers \<open>onstart\<close>, \<open>onend\<close> and \<open>onerror\<close> that \<open>speakText\<close> sets on its
  utterance. They set the flags and clear \<open>currentUtteranceRef\<close> whatever utterance the
  reference holds by then; which utterance the browser calls them for, and what it does
  to its queue, is in the events below.
\<close>

definition utterance_onstart :: "app \<times> chat \<Rightarrow> app \<times> chat" where
  "utterance_onstart ac =
     (case ac of (a, c) \<Rightarrow> (handleSpeakingChange True a, c\<lparr>isSpeaking := True\<rparr>))"

definition utterance_onend :: "app \<times> chat \<Rightarrow> app \<times> chat" where
  "utterance_onend ac =
     (case ac of (a, c) \<Rightarrow>
        (handleSpeakingChange False a,
         c\<lparr>isSpeaking := False, currentUtteranceRef := None\<rparr>))"

definition utterance_onerror :: "app \<times> chat \<Rightarrow> app \<times> chat" where
  "utterance_onerror ac =
     (case ac of (a, c) \<Rightarrow>
        (handleSpeakingChange False a,
         c\<lparr>isSpeaking := False, currentUtteranceRef := None\<rparr>))"

subsection \<open>A turn: \<open>handleSendMessage\<close>\<close>

text \<open>
  The handler runs up to its \<open>await\<close>, and resumes when the request settles. A
  \<open>turn\<close> is the request sent together with what the continuation keeps from the
  render of the submit: \<open>newMessages\<close>, the \<open>sessionId\<close> prop (which is also the
  \<open>sessionId\<close> of the \<open>updateSessionMessages\<close> passed as \<open>setMessages\<close>, both
  coming from one render of App), and the memoised \<open>speakText\<close>.
\<close>

record turn =
  question :: jsstring
  session_id :: "jsstring option"
  model :: jsstring
  newMessages :: "message list"
  speak :: speak_closure

record response =
  answer :: jsstring
  emotion :: "jsstring option"
  data_session_id :: "jsstring option"

text \<open>
  A rejected request: no \<open>error.response\<close>, or a status with \<open>data.detail\<close>. Of an
  object \<open>detail\<close> only \<open>retry_after_seconds\<close> is read (\<open>Undefined\<close> when the
  object has no such property).
\<close>

datatype detail = Detail_absent | Detail_null | Detail_string jsstring | Detail_object jsnum

datatype failure = No_response | Status int detail

text \<open>How the handler finishes: it returns, or an exception leaves its \<open>catch\<close> block.\<close>

datatype completion = Returned | Thrown_TypeError

definition handleSendMessage :: "app \<times> chat \<Rightarrow> (app \<times> chat) \<times> turn option" where
  "handleSendMessage ac =
     (case ac of (a, c) \<Rightarrow>
        if trim (inputValue c) = [] \<or> isLoading c then ((a, c), None)
        else (let c1 = (if isListening c \<and> recognitionRef c then c\<lparr>isListening := False\<rparr>
                        else c);
                  userMessage = \<lparr> role = User, content = inputValue c \<rparr>;
                  msgs = safeMessages a @ [userMessage];
                  a1 = updateSessionMessages (sessionId a) msgs a;
                  c2 = c1\<lparr>inputValue := [], isLoading := True\<rparr>
              in ((a1, c2),
                  Some \<lparr> question = inputValue c, session_id = sessionId a,
                         model = selectedModel c, newMessages = msgs,
                         speak = speak_closure_of c \<rparr>)))"

text \<open>
  The \<open>try\<close> block after the \<open>await\<close>, as far as it acts on App. These calls reach
  App whether or not the ChatInterface that sent the request is still mounted.
\<close>

definition resolved_app :: "turn \<Rightarrow> response \<Rightarrow> app \<Rightarrow> app" where
  "resolved_app t resp a =
     (let aiMessage = \<lparr> role = Assistant, content = answer resp \<rparr>;
          a1 = updateSessionMessages (session_id t) (newMessages t @ [aiMessage]) a;
          a2 = (case emotion resp of
                  None \<Rightarrow> a1
                | Some e \<Rightarrow> if e = [] then a1 else handleEmotionChange e a1);
          a3 = handleResponseChange (answer resp) a2
      in if \<not> truthy (session_id t) \<and> truthy (data_session_id resp)
         then a3\<lparr> sessionId := data_session_id resp,
                  storage := (storage a3)\<lparr>ai_tutor_session := data_session_id resp\<rparr> \<rparr>
         else a3)"

text \<open>The text handed to \<open>setTimeout(() => speakText(answer, true), 100)\<close>, if any.\<close>

definition deferred_speech :: "turn \<Rightarrow> response \<Rightarrow> jsstring option" where
  "deferred_speech t resp = (if cl_autoSpeak (speak t) then Some (answer resp) else None)"

definition handleSendMessage_resolved ::
  "turn \<Rightarrow> response \<Rightarrow> app \<times> chat \<Rightarrow> (app \<times> chat) \<times> jsstring option" where
  "handleSendMessage_resolved t resp ac =
     (case ac of (a, c) \<Rightarrow>
        ((resolved_app t resp a, c\<lparr>isLoading := False\<rparr>), deferred_speech t resp))"

definition run_deferred_speech ::
  "(jsstring \<Rightarrow> jsstring) \<Rightarrow> turn \<Rightarrow> jsstring \<Rightarrow> app \<times> chat \<Rightarrow> app \<times> chat" where
  "run_deferred_speech removeMd t text ac = speakText removeMd (speak t) text True False ac"

definition quota_message :: jsstring where
  "quota_message = [0x26A0, 0xFE0F] @ js '' API limit reached. Check the popup for details.''"

text \<open>
  The \<open>catch\<close> block and \<open>finally\<close>. Reading \<open>retry_after_seconds\<close> of a \<open>null\<close>
  detail (\<open>typeof null === 'object'\<close>) throws before anything is set.
\<close>

definition handleSendMessage_rejected ::
  "turn \<Rightarrow> failure \<Rightarrow> app \<times> chat \<Rightarrow> (app \<times> chat) \<times> completion" where
  "handleSendMessage_rejected t err ac =
     (case ac of (a, c) \<Rightarrow>
        (let other =
               (let errorMessage =
                      \<lparr> role = Error, content = js ''Failed to get response. Please try again.'' \<rparr>;
                    a1 = updateSessionMessages (session_id t) (newMessages t @ [errorMessage]) a
                in ((handleEmotionChange (js ''neutral'') a1, c\<lparr>isLoading := False\<rparr>),
                    Returned))
         in (case err of
               No_response \<Rightarrow> other
             | Status status d \<Rightarrow>
                 if status = 429
                 then (case d of
                         Detail_null \<Rightarrow> ((a, c\<lparr>isLoading := False\<rparr>), Thrown_TypeError)
                       | _ \<Rightarrow>
                          (let seconds = (case d of Detail_object r \<Rightarrow> r | _ \<Rightarrow> Num 3600);
                               c1 = c\<lparr> retrySeconds := seconds,
                                       countdown := formatTime seconds,
                                       showQuotaPopup := True \<rparr>;
                               errorMessage = \<lparr> role = Error, content = quota_message \<rparr>;
                               a1 = updateSessionMessages (session_id t)
                                      (newMessages t @ [errorMessage]) a
                           in ((handleEmotionChange (js ''neutral'') a1,
                                countdown_effects (c1\<lparr>isLoading := False\<rparr>)),
                               Returned)))
                 else other)))"

subsection \<open>Operations on sessions\<close>

text \<open>
  The session operations of App, each followed by its render, and a restart of the
  page over the storage left behind. \<open>InitializeSession\<close> is the effect of
  ChatInterface that gives a session id when there is none.
\<close>

datatype session_op =
    NewSession jsstring jsstring
  | LoadSession jsstring
  | DeleteSession jsstring jsstring jsstring
  | AppendMessage "jsstring option" "message list"
  | InitializeSession jsstring
  | Restart

definition initialize_session :: "jsstring \<Rightarrow> app \<Rightarrow> app" where
  "initialize_session newSessionId a =
     (if \<not> truthy (sessionId a)
      then a\<lparr> sessionId := Some newSessionId,
              storage := (storage a)\<lparr>ai_tutor_session := Some newSessionId\<rparr> \<rparr>
      else a)"

definition apply_op :: "session_op \<Rightarrow> app \<Rightarrow> app" where
  "apply_op op a =
     (case op of
        NewSession now newSessionId \<Rightarrow> app_effects (handleNewSession now newSessionId a)
      | LoadSession loadSessionId \<Rightarrow> app_effects (handleLoadSession loadSessionId a)
      | DeleteSession deleteSessionId now newSessionId \<Rightarrow>
          app_effects (handleDeleteSession deleteSessionId now newSessionId a)
      | AppendMessage sid msgs \<Rightarrow> app_effects (updateSessionMessages sid msgs a)
      | InitializeSession newSessionId \<Rightarrow> app_effects (initialize_session newSessionId a)
      | Restart \<Rightarrow> app_mount (storage a))"

definition run_ops :: "session_op list \<Rightarrow> app \<Rightarrow> app" where
  "run_ops ops a = foldl (\<lambda>s op. apply_op op s) a ops"

definition empty_storage :: localStorage where
  "empty_storage =
     \<lparr> ai_tutor_session = None, ai_tutor_messages = Absent, ai_tutor_sessions = Absent \<rparr>"

text \<open>The catalog held by the storage, if the key holds one.\<close>

definition stored_catalog :: "app \<Rightarrow> session list" where
  "stored_catalog a =
     (case ai_tutor_sessions (storage a) of Stored xs \<Rightarrow> xs | _ \<Rightarrow> [])"

subsection \<open>Events of the page\<close>

text \<open>
  App renders ChatInterface with \<open>key={sessionId}\<close>: when a session operation changes
  the session id, and when the page restarts, the mounted ChatInterface is unmounted and
  a new one is mounted. The cleanup of the old one empties the synthesis queue; the new
  one starts from its first render, with the auto-speak preference that the old one had
  saved. \<open>defaultVoice\<close> is the voice the browser offers first.
\<close>

definition remount :: "voice option \<Rightarrow> chat \<Rightarrow> chat" where
  "remount defaultVoice c = chat_init (recognitionRef c) (Some (autoSpeak c)) defaultVoice"

text \<open>
  The state is that of App and of the mounted ChatInterface; \<open>synth\<close> in the latter is
  the one queue of the browser, shared with every ChatInterface that was mounted before.
  The events are
  \<^item> those of the mounted ChatInterface: the submit and the settling of its request,
    user input, the controls of the header, speech capture, the countdown and the
    timeouts;
  \<^item> the lifecycle of its utterances: the head of the queue starts, ends or fails (the
    browser then takes it off the queue), and \<open>UtteranceCancelled\<close>, the error event
    that the browser sends for an utterance that \<open>cancel\<close> has removed, after the call
    that removed it has returned;
  \<^item> what an unmounted ChatInterface still does: its request settles (the calls reach
    App, its own state setters do nothing), its deferred speech runs against the queue
    with the reference it holds (\<open>held\<close>), and the handlers of its utterances notify
    App;
  \<^item> the session operations, with the remount they cause.
  An event is accepted in any state, also where the page could not produce it: there are
  more runs here than on the page, and what holds of all of them holds of the page. A
  render follows each event, with the effects of App.
\<close>

datatype event =
    Submit
  | Resolved turn response
  | Rejected turn failure
  | Change jsstring
  | ToggleListening bool
  | RecognitionResult "(jsstring \<times> bool) list"
  | RecognitionError
  | RecognitionEnd
  | SelectModel jsstring
  | SelectVoice "voice option"
  | SelectRate real
  | SetAutoSpeak bool
  | SpeakButton jsstring
  | DeferredSpeech turn jsstring
  | UtteranceStart
  | UtteranceEnd
  | UtteranceError
  | UtteranceCancelled
  | Tick
  | ClosePopup
  | ResetTimeout
  | ForeignResolved turn response
  | ForeignRejected turn failure
  | ForeignSpeech turn jsstring "utterance option"
  | ForeignUtteranceStart
  | ForeignUtteranceEnd
  | ForeignUtteranceCancelled
  | SessionOp session_op "voice option"

text \<open>Whether an event unmounts the ChatInterface, in the state of App it meets.\<close>

definition remounting :: "event \<Rightarrow> app \<Rightarrow> bool" where
  "remounting ev a =
     (case ev of
        SessionOp op defaultVoice \<Rightarrow> op = Restart \<or> sessionId (apply_op op a) \<noteq> sessionId a
      | _ \<Rightarrow> False)"

definition handle :: "(jsstring \<Rightarrow> jsstring) \<Rightarrow> event \<Rightarrow> app \<times> chat \<Rightarrow> app \<times> chat" where
  "handle removeMd ev ac =
     (case ac of (a, c) \<Rightarrow>
        (case ev of
           Submit \<Rightarrow> fst (handleSendMessage (a, c))
         | Resolved t resp \<Rightarrow> fst (handleSendMessage_resolved t resp (a, c))
         | Rejected t err \<Rightarrow> fst (handleSendMessage_rejected t err (a, c))
         | Change v \<Rightarrow> (a, c\<lparr>inputValue := v\<rparr>)
         | ToggleListening startOk \<Rightarrow> (a, toggleListening startOk c)
         | RecognitionResult results \<Rightarrow> (a, handleResult results c)
         | RecognitionError \<Rightarrow> (a, handleError c)
         | RecognitionEnd \<Rightarrow> (a, handleEnd c)
         | SelectModel m \<Rightarrow> (a, c\<lparr>selectedModel := m\<rparr>)
         | SelectVoice v \<Rightarrow> (a, c\<lparr>selectedVoice := v\<rparr>)
         | SelectRate r \<Rightarrow> (a, c\<lparr>speechRate := r\<rparr>)
         | SetAutoSpeak b \<Rightarrow> (a, c\<lparr>autoSpeak := b\<rparr>)
         | SpeakButton text \<Rightarrow> speakText removeMd (speak_closure_of c) text True True (a, c)
         | DeferredSpeech t text \<Rightarrow> run_deferred_speech removeMd t text (a, c)
         | UtteranceStart \<Rightarrow> if synth c = [] then (a, c) else utterance_onstart (a, c)
         | UtteranceEnd \<Rightarrow>
             if synth c = [] then (a, c) else utterance_onend (a, c\<lparr>synth := tl (synth c)\<rparr>)
         | UtteranceError \<Rightarrow>
             if synth c = [] then (a, c) else utterance_onerror (a, c\<lparr>synth := tl (synth c)\<rparr>)
         | UtteranceCancelled \<Rightarrow> utterance_onerror (a, c)
         | Tick \<Rightarrow> (a, tick c)
         | ClosePopup \<Rightarrow> (a, closePopup c)
         | ResetTimeout \<Rightarrow> (reset_timeout a, c)
         | ForeignResolved t resp \<Rightarrow> (resolved_app t resp a, c)
         | ForeignRejected t err \<Rightarrow> (fst (fst (handleSendMessage_rejected t err (a, c))), c)
         | ForeignSpeech t text held \<Rightarrow>
             (case run_deferred_speech removeMd t text (a, c\<lparr>currentUtteranceRef := held\<rparr>) of
                (a', c') \<Rightarrow> (a', c\<lparr>synth := synth c'\<rparr>))
         | ForeignUtteranceStart \<Rightarrow>
             if synth c = [] then (a, c) else (handleSpeakingChange True a, c)
         | ForeignUtteranceEnd \<Rightarrow>
             if synth c = [] then (a, c)
             else (handleSpeakingChange False a, c\<lparr>synth := tl (synth c)\<rparr>)
         | ForeignUtteranceCancelled \<Rightarrow> (handleSpeakingChange False a, c)
         | SessionOp op defaultVoice \<Rightarrow>
             (apply_op op a,
              if remounting (SessionOp op defaultVoice) a then remount defaultVoice c else c)))"

definition step :: "(jsstring \<Rightarrow> jsstring) \<Rightarrow> event \<Rightarrow> app \<times> chat \<Rightarrow> app \<times> chat" where
  "step removeMd ev ac = (case handle removeMd ev ac of (a, c) \<Rightarrow> (app_effects a, c))"

definition run :: "(jsstring \<Rightarrow> jsstring) \<Rightarrow> event list \<Rightarrow> app \<times> chat \<Rightarrow> app \<times> chat" where
  "run removeMd evs ac = foldl (\<lambda>s ev. step removeMd ev s) ac evs"



section \<open>The display as the specification words it\<close>

text \<open>
  Zero-padded hours, minutes and seconds of a remaining time that is clamped at zero:
  two decimal digits each, and all the digits of an hour count of three digits or more.
\<close>

definition two_digits :: "nat \<Rightarrow> jsstring" where
  "two_digits k = [of_nat (48 + k div 10), of_nat (48 + k mod 10)]"

definition spec_display :: "int \<Rightarrow> jsstring" where
  "spec_display n =
     (let t = nat (max 0 n);
          hours = t div 3600
      in (if hours < 100 then two_digits hours else digits hours) @ js ''h '' @
         two_digits (t div 60 mod 60) @ js ''m '' @
         two_digits (t mod 60) @ js ''s'')"

section \<open>Example states\<close>

definition example_app :: app where
  "example_app = app_mount empty_storage"

definition example_chat :: chat where
  "example_chat = chat_init True None None"

definition example_turn :: turn where
  "example_turn =
     \<lparr> question = js ''What is osmosis?'', session_id = Some (js ''s1''),
       model = js ''gemini-2.5-flash'',
       newMessages = [\<lparr> role = User, content = js ''What is osmosis?'' \<rparr>],
       speak = \<lparr> cl_selectedVoice = None, cl_speechRate = 1, cl_autoSpeak = True \<rparr> \<rparr>"

definition example_ops :: "session_op list" where
  "example_ops =
     [InitializeSession (js ''s1''),
      AppendMessage (Some (js ''s1'')) [\<lparr> role = User, content = js ''What is osmosis?'' \<rparr>],
      NewSession (js ''2026-01-01'') (js ''s2''),
      NewSession (js ''2026-01-02'') (js ''s3''),
      LoadSession (js ''s1''),
      NewSession (js ''2026-01-03'') (js ''s4''),
      Restart]"

definition example_response :: response where
  "example_response =
     \<lparr> answer = js ''Osmosis is the movement of water across a membrane.'',
       emotion = Some (js ''explaining''), data_session_id = Some (js ''s1'') \<rparr>"

text \<open>A session \<open>s1\<close> in which the question of \<open>example_turn\<close> is submitted.\<close>

definition example_dispatch :: "(app \<times> chat) \<times> turn option" where
  "example_dispatch =
     handleSendMessage
       (initialize_session (js ''s1'') example_app,
        example_chat\<lparr>inputValue := js ''What is osmosis?''\<rparr>)"

text \<open>
  Modelled from the spec: the markup stripper applied before playback ("strip
  markup/formatting from the text"). The library remove-markdown behind \<open>removeMd\<close> is
  not among the sources; this stand-in deletes the emphasis, heading and code marks
  \<open>*\<close>, \<open>_\<close>, \<open>#\<close> and the backquote, and keeps every other code unit. It is used for
  concrete examples only; the theorems on \<open>speakText\<close> hold for any stripper.
\<close>

definition strip_marks :: "jsstring \<Rightarrow> jsstring" where
  "strip_marks text = filter (\<lambda>c. c \<notin> set [0x2A, 0x5F, 0x23, 0x60]) text"




section \<open>Rounding to doubles\<close>

lemma bits_bounds: "0 < n \<Longrightarrow> 2 ^ (bits n - 1) \<le> n \<and> n < 2 ^ bits n"
proof (induction n rule: bits.induct)
  case (1 n)
  show ?case
  proof (cases "n div 2 = 0")
    case True
    with "1.prems" have "n = 1" by (auto simp: div_eq_0_iff)
    then show ?thesis by (simp add: bits.simps)
  next
    case False
    with "1.IH" "1.prems" have ih: "2 ^ (bits (n div 2) - 1) \<le> n div 2" "n div 2 < 2 ^ bits (n div 2)"
      by auto
    from False have pos: "0 < bits (n div 2)" by (simp add: bits.simps[of "n div 2"])
    have b: "bits n = Suc (bits (n div 2))" using "1.prems" by (simp add: bits.simps[of n])
    have "2 ^ (bits n - 1) = 2 * 2 ^ (bits (n div 2) - 1)"
      using pos b by (cases "bits (n div 2)") simp_all
    also have "\<dots> \<le> 2 * (n div 2)" using ih(1) by simp
    also have "\<dots> \<le> n" by simp
    finally have lo: "2 ^ (bits n - 1) \<le> n" .
    have "n < 2 * (n div 2) + 2" by presburger
    also have "\<dots> \<le> 2 * 2 ^ bits (n div 2)" using ih(2) by simp
    finally have "n < 2 ^ bits n" by (simp add: b)
    with lo show ?thesis by simp
  qed
qed

lemma exponent_le: "0 < x \<Longrightarrow> 2 powi (exponent x) \<le> x"
proof (cases "1 \<le> x")
  case True
  let ?p = "nat \<lfloor>x\<rfloor>"
  from True have f: "0 < ?p" by simp
  from bits_bounds [OF f] have "2 ^ (bits ?p - 1) \<le> ?p" by blast
  then have "(of_nat (2 ^ (bits ?p - 1)) :: rat) \<le> of_nat ?p"
    by (simp only: of_nat_le_iff)
  then have "(2::rat) ^ (bits ?p - 1) \<le> of_nat ?p" by simp
  also have "(of_nat ?p :: rat) = of_int \<lfloor>x\<rfloor>" using True by simp
  also have "\<dots> \<le> x" by (rule of_int_floor_le)
  finally have le: "(2::rat) ^ (bits ?p - 1) \<le> x" .
  have "0 < bits ?p" using f by (simp add: bits.simps[of ?p])
  then have "int (bits ?p) - 1 = int (bits ?p - 1)" by simp
  then have "(2::rat) powi (int (bits ?p) - 1) = 2 ^ (bits ?p - 1)"
    by (simp only: power_int_of_nat)
  with le True show ?thesis by (simp add: exponent_def)
next
  case False
  assume x: "0 < x"
  let ?p = "nat \<lfloor>1 / x\<rfloor>"
  let ?l = "int (bits ?p)"
  from False x have "1 < 1 / x" by (simp add: field_simps)
  then have p: "0 < ?p" by simp
  from bits_bounds [OF p] have "?p < 2 ^ bits ?p" by blast
  then have "?p + 1 \<le> 2 ^ bits ?p" by linarith
  then have "(of_nat (?p + 1) :: rat) \<le> of_nat (2 ^ bits ?p)"
    by (simp only: of_nat_le_iff)
  then have up: "(of_nat ?p :: rat) + 1 \<le> 2 ^ bits ?p" by simp
  have "1 / x < of_int \<lfloor>1 / x\<rfloor> + 1" by linarith
  also have "(of_int \<lfloor>1 / x\<rfloor> :: rat) = of_nat ?p"
    using x by (intro of_nat_nat [symmetric]) simp
  finally have "1 / x < 2 ^ bits ?p" using up by simp
  then have "1 / 2 ^ bits ?p < x" using x by (simp add: field_simps)
  moreover have "(2::rat) powi (- ?l) = 1 / 2 ^ bits ?p"
    by (simp add: power_int_minus_divide)
  ultimately have lo: "2 powi (- ?l) \<le> x" by simp
  show ?thesis
  proof (cases "x = 2 powi (1 - ?l)")
    case True
    with False show ?thesis by (simp add: exponent_def Let_def)
  next
    case ne: False
    with False lo show ?thesis by (simp add: exponent_def Let_def)
  qed
qed


lemma round_half_even_near: "\<bar>of_int (round_half_even y) - y\<bar> \<le> 1 / 2"
proof -
  have lo: "of_int \<lfloor>y\<rfloor> \<le> y" and hi: "y < of_int \<lfloor>y\<rfloor> + 1"
    by linarith+
  consider "y - of_int \<lfloor>y\<rfloor> < 1 / 2" | "1 / 2 < y - of_int \<lfloor>y\<rfloor>"
    | "y - of_int \<lfloor>y\<rfloor> = 1 / 2"
    by linarith
  then show ?thesis
  proof cases
    case 1
    then have "round_half_even y = \<lfloor>y\<rfloor>" by (simp add: round_half_even_def Let_def)
    with 1 lo show ?thesis by simp
  next
    case 2
    then have "round_half_even y = \<lfloor>y\<rfloor> + 1" by (simp add: round_half_even_def Let_def)
    with 2 hi show ?thesis by simp
  next
    case 3
    then have "round_half_even y = \<lfloor>y\<rfloor> \<or> round_half_even y = \<lfloor>y\<rfloor> + 1"
      by (simp add: round_half_even_def Let_def)
    with 3 show ?thesis by auto
  qed
qed

lemma round_half_even_ge: "of_int m \<le> y \<Longrightarrow> m \<le> round_half_even y"
proof -
  assume "of_int m \<le> y"
  then have "m \<le> \<lfloor>y\<rfloor>" by (simp add: le_floor_iff)
  moreover have "\<lfloor>y\<rfloor> \<le> round_half_even y"
    by (simp add: round_half_even_def Let_def)
  ultimately show ?thesis by simp
qed

lemma round_half_even_of_int: "round_half_even (of_int m) = m"
  by (simp add: round_half_even_def)


lemma toDouble_positive:
  assumes "0 < x" and "x < 2 ^ 53"
  shows "\<bar>toDouble x - x\<bar> \<le> x / 2 ^ 53"
    and "of_int k \<le> x \<Longrightarrow> of_int k \<le> toDouble x"
    and "x = of_int k \<Longrightarrow> toDouble x = x"
proof -
  define e where "e = exponent x"
  define u :: rat where "u = 2 powi (e - 52)"
  define M where "M = round_half_even (x / u)"
  have u_pos: "0 < u" by (simp add: u_def)
  have dbl: "toDouble x = of_int M * u"
    using assms(1) by (simp add: toDouble_def Let_def e_def u_def M_def)
  have low: "2 powi e \<le> x"
    unfolding e_def using assms(1) by (rule exponent_le)
  have u_eq: "u = 2 powi e / 2 ^ 52"
    by (simp add: u_def power_int_diff)
  have "\<bar>of_int M - x / u\<bar> \<le> 1 / 2"
    unfolding M_def by (rule round_half_even_near)
  then have "\<bar>of_int M - x / u\<bar> * u \<le> 1 / 2 * u"
    using u_pos by (intro mult_right_mono) simp_all
  moreover have "\<bar>of_int M - x / u\<bar> * u = \<bar>of_int M * u - x\<bar>"
  proof -
    have "\<bar>of_int M - x / u\<bar> * u = \<bar>(of_int M - x / u) * u\<bar>"
      using u_pos by (simp add: abs_mult)
    also have "(of_int M - x / u) * u = of_int M * u - x"
      using u_pos by (simp add: left_diff_distrib)
    finally show ?thesis .
  qed
  ultimately have near: "\<bar>toDouble x - x\<bar> \<le> u / 2" by (simp add: dbl)
  have "u / 2 \<le> x / 2 ^ 53" using low by (simp add: u_eq)
  with near show "\<bar>toDouble x - x\<bar> \<le> x / 2 ^ 53" by simp
  have "e \<le> 52"
  proof (rule ccontr)
    assume "\<not> e \<le> 52"
    then have "53 \<le> e" by simp
    then have "(2::rat) powi 53 \<le> 2 powi e" by (intro power_int_increasing) simp_all
    with low assms(2) show False by simp
  qed
  define j where "j = nat (52 - e)"
  have inv: "1 / u = of_int (2 ^ j)"
  proof -
    have "1 / u = 2 powi (52 - e)"
      by (simp add: u_def power_int_minus_divide [symmetric])
    also have "\<dots> = 2 ^ j" using \<open>e \<le> 52\<close> by (simp add: j_def power_int_nonneg_exp)
    finally show ?thesis by simp
  qed
  have scaled: "of_int (i * 2 ^ j) * u = of_int i" for i
  proof -
    have "of_int (i * 2 ^ j) * u = of_int i * ((1 / u) * u)" by (simp add: inv)
    then show ?thesis using u_pos by simp
  qed
  show "of_int k \<le> toDouble x" if k: "of_int k \<le> x"
  proof -
    have "of_int (k * 2 ^ j) = of_int k * (1 / u)" by (simp add: inv)
    also have "\<dots> \<le> x * (1 / u)" using k u_pos by (intro mult_right_mono) simp_all
    finally have "of_int (k * 2 ^ j) \<le> x / u" by simp
    then have "k * 2 ^ j \<le> M" unfolding M_def by (rule round_half_even_ge)
    then have "(of_int (k * 2 ^ j) :: rat) \<le> of_int M" by (simp only: of_int_le_iff)
    then have le: "of_int (k * 2 ^ j) * u \<le> of_int M * u"
      using u_pos by (intro mult_right_mono) simp_all
    from le have "of_int k \<le> of_int M * u" by (simp only: scaled)
    then show ?thesis by (simp only: dbl)
  qed
  show "toDouble x = x" if k: "x = of_int k"
  proof -
    have "x / u = of_int k * (1 / u)" by (simp add: k)
    also have "\<dots> = of_int (k * 2 ^ j)" by (simp add: inv)
    finally have "M = k * 2 ^ j"
      unfolding M_def by (simp only: round_half_even_of_int)
    then have "toDouble x = of_int (k * 2 ^ j) * u" by (simp only: dbl)
    then show ?thesis by (simp only: scaled k)
  qed
qed

lemma floor_toDouble_divide:
  assumes "0 \<le> n" and "n < 2 ^ 53" and "0 < d"
  shows "\<lfloor>toDouble (of_int n / of_int d)\<rfloor> = n div d"
proof (cases "n = 0")
  case True
  then show ?thesis by (simp add: toDouble_def)
next
  case False
  define x :: rat where "x = of_int n / of_int d"
  define k where "k = n div d"
  from False assms have n: "0 < n" by simp
  have d1: "(1::rat) \<le> of_int d" using assms(3) by simp
  have n_small: "(of_int n :: rat) < 2 ^ 53"
  proof -
    from assms(2) have "(of_int n :: rat) < of_int (2 ^ 53)" by (simp only: of_int_less_iff)
    then show ?thesis by simp
  qed
  have x_pos: "0 < x" using n assms(3) by (simp add: x_def)
  have "x \<le> of_int n" using n d1 by (simp add: x_def field_simps mult_le_cancel_left1)
  also have "(of_int n :: rat) < 2 ^ 53" by (rule n_small)
  finally have x_small: "x < 2 ^ 53" .
  have k_le: "of_int k \<le> x"
  proof -
    have "(of_int k :: rat) = of_int \<lfloor>(of_int n :: rat) / of_int d\<rfloor>"
      by (simp add: k_def floor_divide_of_int_eq)
    also have "\<dots> \<le> of_int n / of_int d" by (rule of_int_floor_le)
    finally show ?thesis by (simp add: x_def)
  qed
  from toDouble_positive(2) [OF x_pos x_small k_le] have lower: "of_int k \<le> toDouble x" .
  from toDouble_positive(1) [OF x_pos x_small] have "toDouble x \<le> x + x / 2 ^ 53" by linarith
  moreover have "x / 2 ^ 53 < 1 / of_int d"
  proof -
    have "(of_int n :: rat) / 2 ^ 53 < 1" using n_small by simp
    then have "(of_int n / 2 ^ 53) / of_int d < 1 / (of_int d :: rat)"
      using assms(3) by (intro divide_strict_right_mono) simp_all
    then show ?thesis by (simp add: x_def)
  qed
  moreover have "x \<le> of_int k + 1 - 1 / of_int d"
  proof -
    have "n = k * d + n mod d" by (simp add: k_def)
    moreover have "n mod d \<le> d - 1" using assms(3) by (simp add: zle_diff1_eq)
    ultimately have "n \<le> k * d + d - 1" by linarith
    then have "(of_int n :: rat) \<le> of_int (k * d + d - 1)" by (simp only: of_int_le_iff)
    then have "(of_int n :: rat) / of_int d \<le> of_int (k * d + d - 1) / of_int d"
      using assms(3) by (intro divide_right_mono) simp_all
    also have "\<dots> = of_int k + 1 - 1 / of_int d"
      using assms(3) by (simp add: field_simps)
    finally show ?thesis by (simp add: x_def)
  qed
  ultimately have upper: "toDouble x < of_int k + 1" by linarith
  from lower upper have "\<lfloor>toDouble x\<rfloor> = k" by (intro floor_unique) simp_all
  then show ?thesis by (simp add: x_def k_def)
qed


lemma toDouble_of_int:
  assumes "0 \<le> m" and "m < 2 ^ 53"
  shows "toDouble (of_int m) = of_int m"
proof (cases "m = 0")
  case True
  then show ?thesis by (simp add: toDouble_def)
next
  case False
  with assms have pos: "(0::rat) < of_int m" by simp
  have small: "(of_int m :: rat) < 2 ^ 53"
  proof -
    from assms(2) have "(of_int m :: rat) < of_int (2 ^ 53)" by (simp only: of_int_less_iff)
    then show ?thesis by simp
  qed
  show ?thesis
    by (rule toDouble_positive(3) [OF pos small]) (rule refl)
qed

lemma bits_example: "bits 5124095576030435 = 53"
  by (simp add: bits.simps)

lemma example_quotient:
  "\<lfloor>toDouble (of_int 18446744073709568000 / of_int 3600)\<rfloor> = 5124095576030436"
proof -
  have q: "(of_int 18446744073709568000 :: rat) / of_int 3600 = 46116860184273920 / 9"
    by simp
  have f: "\<lfloor>(46116860184273920 / 9 :: rat)\<rfloor> = 5124095576030435"
    by (rule floor_unique) simp_all
  have e: "exponent (46116860184273920 / 9) = 52"
    by (simp add: exponent_def f bits_example)
  have r: "round_half_even (46116860184273920 / 9) = 5124095576030436"
    by (simp add: round_half_even_def Let_def f)
  show ?thesis
    unfolding q by (simp add: toDouble_def Let_def e r)
qed

section \<open>The display of the remaining time\<close>

lemma digits_small: "n < 10 \<Longrightarrow> digits n = [of_nat (48 + n)]"
  by (simp add: digits.simps)

lemma digits_two_digits: "10 \<le> n \<Longrightarrow> n < 100 \<Longrightarrow> digits n = two_digits n"
  by (subst digits.simps) (simp add: digits_small two_digits_def)

lemma length_digits: "10 \<le> n \<Longrightarrow> 2 \<le> length (digits n)"
  by (subst digits.simps) (simp add: Suc_le_eq digits.simps[of "n div 10"])

lemma padStart_digits: "n < 100 \<Longrightarrow> padStart 2 (js ''0'') (digits n) = two_digits n"
proof (cases "n < 10")
  case True
  then show ?thesis
    by (simp add: padStart_def digits_small two_digits_def js_def)
next
  case False
  assume "n < 100"
  with False have "digits n = two_digits n" by (simp add: digits_two_digits)
  then show ?thesis by (simp add: padStart_def two_digits_def)
qed

lemma padStart_long: "10 \<le> n \<Longrightarrow> padStart 2 p (digits n) = digits n"
  using length_digits [of n] by (simp add: padStart_def)

lemma toString_nonneg: "0 \<le> i \<Longrightarrow> toString i = digits (nat i)"
  by (simp add: toString_def)

lemma minutes_nat: "0 \<le> n \<Longrightarrow> nat (n mod 3600 div 60) = nat n div 60 mod 60"
proof -
  assume n: "0 \<le> n"
  have "nat n mod 3600 div 60 = nat n div 60 mod 60"
    using mod_mult2_eq [of "nat n" 60 60] by simp
  moreover have "nat (n mod 3600 div 60) = (nat n mod 3600) div 60"
    using n by (simp add: nat_div_distrib nat_mod_distrib)
  ultimately show ?thesis by simp
qed

lemma formatTime_positive:
  assumes n: "0 < n" and small: "n < 2 ^ 53"
  shows "formatTime (Num n) = spec_display n"
proof -
  have qh: "\<lfloor>toDouble (of_int n / 3600)\<rfloor> = n div 3600"
    using floor_toDouble_divide [of n 3600] n small by simp
  have "n mod 3600 < 2 ^ 53"
  proof -
    have "n mod 3600 < 3600" by simp
    also have "(3600::int) < 2 ^ 53" by simp
    finally show ?thesis .
  qed
  then have qm: "\<lfloor>toDouble (of_int (n mod 3600) / 60)\<rfloor> = n mod 3600 div 60"
    using floor_toDouble_divide [of "n mod 3600" 60] by simp
  have h: "nat (n div 3600) = nat n div 3600" using n by (simp add: nat_div_distrib)
  have m: "nat (n mod 3600 div 60) = nat n div 60 mod 60" using n by (simp add: minutes_nat)
  have s: "nat (n mod 60) = nat n mod 60" using n by (simp add: nat_mod_distrib)
  have pm: "padStart 2 (js ''0'') (toString (n mod 3600 div 60))
            = two_digits (nat n div 60 mod 60)"
    using n by (simp add: toString_nonneg m padStart_digits)
  have ps: "padStart 2 (js ''0'') (toString (n mod 60)) = two_digits (nat n mod 60)"
    using n by (simp add: toString_nonneg s padStart_digits)
  have ph: "padStart 2 (js ''0'') (toString (n div 3600))
            = (if nat n div 3600 < 100 then two_digits (nat n div 3600)
               else digits (nat n div 3600))"
    using n by (simp add: toString_nonneg h padStart_digits padStart_long pos_imp_zdiv_nonneg_iff)
  have "formatTime (Num n) =
          padStart 2 (js ''0'') (toString (n div 3600)) @ js ''h '' @
          padStart 2 (js ''0'') (toString (n mod 3600 div 60)) @ js ''m '' @
          padStart 2 (js ''0'') (toString (n mod 60)) @ js ''s''"
    using n by (simp add: formatTime_def js_le_def Let_def qh qm)
  then show ?thesis
    using n by (simp add: pm ps ph spec_display_def Let_def max_def)
qed

lemma formatTime_unfold:
  "0 < n \<Longrightarrow>
   formatTime (Num n) =
     padStart 2 (js ''0'') (toString \<lfloor>toDouble (of_int n / 3600)\<rfloor>) @ js ''h '' @
     padStart 2 (js ''0'') (toString \<lfloor>toDouble (of_int (n mod 3600) / 60)\<rfloor>) @ js ''m '' @
     padStart 2 (js ''0'') (toString (n mod 60)) @ js ''s''"
  by (simp add: formatTime_def js_le_def Let_def)

lemma spec_display_clamped: "n \<le> 0 \<Longrightarrow> spec_display n = js ''00h 00m 00s''"
  by (simp add: spec_display_def two_digits_def js_def max_def)

lemma formatTime_clamped: "n \<le> 0 \<Longrightarrow> formatTime (Num n) = js ''00h 00m 00s''"
  by (simp add: formatTime_def js_le_def)

lemma formatTime_spec_display: "n < 2 ^ 53 \<Longrightarrow> formatTime (Num n) = spec_display n"
  by (cases "0 < n") (simp_all add: formatTime_positive formatTime_clamped spec_display_clamped)

text \<open>
  C9, as the code has it. \<open>formatTime\<close> returns on every input and clamps at zero: on
  \<open>null\<close>, \<open>undefined\<close> and \<open>NaN\<close>, on zero and on every negative number (written
  \<open>- int k\<close>) it gives \<open>00h 00m 00s\<close>. On every integer below \<open>2 ^ 53\<close> it gives the
  zero-padded hours, minutes and seconds of the specification, which for a positive
  number are those of its decomposition.
\<close>

theorem formatTime_total_and_clamped:
  "formatTime Null = js ''00h 00m 00s'' \<and>
   formatTime Undefined = js ''00h 00m 00s'' \<and>
   formatTime NaN = js ''00h 00m 00s'' \<and>
   formatTime (Num (- int k)) = js ''00h 00m 00s'' \<and>
   (n < 2 ^ 53 \<longrightarrow> formatTime (Num n) = spec_display n) \<and>
   (1 + int k < 2 ^ 53 \<longrightarrow>
      formatTime (Num (1 + int k)) =
        (let t = Suc k; hours = t div 3600
         in (if hours < 100 then two_digits hours else digits hours) @ js ''h '' @
            two_digits (t div 60 mod 60) @ js ''m '' @ two_digits (t mod 60) @ js ''s''))"
proof -
  have positive: "formatTime (Num (1 + int k)) =
     (let t = Suc k; hours = t div 3600
      in (if hours < 100 then two_digits hours else digits hours) @ js ''h '' @
         two_digits (t div 60 mod 60) @ js ''m '' @ two_digits (t mod 60) @ js ''s'')"
    if "1 + int k < 2 ^ 53"
  proof -
    from that have "formatTime (Num (1 + int k)) = spec_display (1 + int k)"
      by (rule formatTime_spec_display)
    moreover have "nat (max 0 (1 + int k)) = Suc k" by simp
    ultimately show ?thesis by (simp only: spec_display_def)
  qed
  have nullish: "formatTime Null = js ''00h 00m 00s''"
    "formatTime Undefined = js ''00h 00m 00s''" "formatTime NaN = js ''00h 00m 00s''"
    by (simp_all add: formatTime_def)
  have clamped: "formatTime (Num (- int k)) = js ''00h 00m 00s''"
    by (rule formatTime_clamped) simp
  from nullish clamped positive formatTime_spec_display [of n] show ?thesis
    by blast
qed

theorem formatTime_total_and_clamped_witness:
  "formatTime (Num (- int 5)) = js ''00h 00m 00s'' \<and>
   (3725::int) < 2 ^ 53 \<and>
   formatTime (Num 3725) = js ''01h 02m 05s'' \<and>
   1 + int 359999 < 2 ^ 53 \<and>
   formatTime (Num (1 + int 359999)) = js ''100h 00m 00s''"
  using formatTime_total_and_clamped [of 5 3725] formatTime_total_and_clamped [of 359999 0]
  by (simp add: spec_display_def two_digits_def js_def digits.simps)

text \<open>
  The double \<open>18446744073709568000\<close> is \<open>5124095576030435\<close> hours, 33 minutes and 20
  seconds. Its quotient by 3600 lies between \<open>2 ^ 52\<close> and \<open>2 ^ 53\<close>, where doubles are
  the integers, and is rounded up: the display has one hour too many.
\<close>

theorem formatTime_large_counterexample:
  "toDouble 18446744073709568000 = 18446744073709568000 \<and>
   (18446744073709568000::int) = 3600 * 5124095576030435 + 60 * 33 + 20 \<and>
   spec_display 18446744073709568000 = js ''5124095576030435h 33m 20s'' \<and>
   formatTime (Num 18446744073709568000) = js ''5124095576030436h 33m 20s'' \<and>
   formatTime (Num 18446744073709568000) \<noteq> spec_display 18446744073709568000"
proof -
  have b: "bits 18446744073709568000 = 65"
    by (simp add: bits.simps)
  have f: "\<lfloor>(18446744073709568000 :: rat)\<rfloor> = 18446744073709568000"
    by (rule floor_unique) simp_all
  have e: "exponent 18446744073709568000 = 64"
    by (simp add: exponent_def f b)
  have r: "round_half_even 4503599627370500 = 4503599627370500"
    using round_half_even_of_int [of 4503599627370500] by simp
  have representable: "toDouble 18446744073709568000 = 18446744073709568000"
    by (simp add: toDouble_def Let_def e r)
  have h: "\<lfloor>toDouble (of_int 18446744073709568000 / 3600)\<rfloor> = (5124095576030436::int)"
    using example_quotient by simp
  have m: "\<lfloor>toDouble (of_int (18446744073709568000 mod 3600) / 60)\<rfloor> = (33::int)"
    using floor_toDouble_divide [of 2000 60] by simp
  have hours: "toString 5124095576030436 = js ''5124095576030436''"
    by (simp add: toString_def digits.simps js_def)
  have pos: "(0::int) < 18446744073709568000" by simp
  have s: "(18446744073709568000::int) mod 60 = 20" by simp
  have ph: "padStart 2 (js ''0'') (toString 5124095576030436) = js ''5124095576030436''"
    by (simp add: hours padStart_def) (simp add: js_def)
  have pm: "padStart 2 (js ''0'') (toString 33) = js ''33''"
    by (simp add: padStart_def toString_def digits.simps js_def)
  have ps: "padStart 2 (js ''0'') (toString 20) = js ''20''"
    by (simp add: padStart_def toString_def digits.simps js_def)
  have "formatTime (Num 18446744073709568000) =
      js ''5124095576030436'' @ js ''h '' @ js ''33'' @ js ''m '' @ js ''20'' @ js ''s''"
    by (simp only: formatTime_unfold [OF pos] h m s ph pm ps)
  then have code: "formatTime (Num 18446744073709568000) = js ''5124095576030436h 33m 20s''"
    by (simp add: js_def)
  have spec: "spec_display 18446744073709568000 = js ''5124095576030435h 33m 20s''"
    by (simp add: spec_display_def Let_def two_digits_def digits.simps js_def)
  have differ: "js ''5124095576030436h 33m 20s'' \<noteq> js ''5124095576030435h 33m 20s''"
    by (simp add: js_def)
  from representable code spec differ show ?thesis by simp
qed

section \<open>The countdown\<close>

lemma tick_active:
  assumes "timer c" and "showQuotaPopup c" and "retrySeconds c = Num n" and "0 < n"
    and "n < 2 ^ 53"
  shows "tick c = c\<lparr> retrySeconds := Num (n - 1), timer := (1 < n),
                     countdown := formatTime (Num (n - 1)) \<rparr>"
proof (cases "n = 1")
  case True
  with assms show ?thesis
    by (simp add: tick_def countdown_effects_def js_le_def js_gt_def js_minus_def)
next
  case False
  from assms have "toDouble (of_int (n - 1)) = of_int (n - 1)"
    by (intro toDouble_of_int) simp_all
  then have "\<lfloor>toDouble (of_int (n - 1))\<rfloor> = n - 1" by simp
  with False assms show ?thesis
    by (simp add: tick_def countdown_effects_def js_le_def js_gt_def js_minus_def)
qed

lemma tick_idle: "\<not> timer c \<Longrightarrow> tick c = c"
  by (simp add: tick_def)

lemma countdown_ticks:
  assumes "showQuotaPopup c" and "retrySeconds c = Num n" and "0 \<le> n"
    and "timer c = (0 < n)" and "countdown c = formatTime (Num n)" and "n < 2 ^ 53"
  shows "retrySeconds ((tick ^^ k) c) = Num (max 0 (n - int k)) \<and>
         showQuotaPopup ((tick ^^ k) c) \<and>
         timer ((tick ^^ k) c) = (int k < n) \<and>
         countdown ((tick ^^ k) c) = formatTime (Num (max 0 (n - int k)))"
proof (induction k)
  case 0
  from assms show ?case by (simp add: max_def)
next
  case (Suc k)
  let ?c = "(tick ^^ k) c"
  show ?case
  proof (cases "int k < n")
    case True
    with Suc have t: "timer ?c" and p: "showQuotaPopup ?c"
      and r: "retrySeconds ?c = Num (n - int k)"
      by (simp_all add: max_def)
    from True have pos: "0 < n - int k" by simp
    from assms(6) have small: "n - int k < 2 ^ 53" by simp
    have e: "n - int k - 1 = n - (1 + int k)" by simp
    have "1 < n - int k \<longleftrightarrow> 1 + int k < n" by auto
    then show ?thesis
      using True p by (simp add: tick_active [OF t p r pos small] max_def e)
  next
    case False
    with Suc have "\<not> timer ?c" by simp
    then have "tick ?c = ?c" by (rule tick_idle)
    with Suc False show ?thesis by (simp add: max_def)
  qed
qed

lemma rejected_429_chat:
  "d \<noteq> Detail_null \<Longrightarrow>
   snd (fst (handleSendMessage_rejected t (Status 429 d) (a, c))) =
     c\<lparr> retrySeconds := (case d of Detail_object r \<Rightarrow> r | _ \<Rightarrow> Num 3600),
        countdown := formatTime (case d of Detail_object r \<Rightarrow> r | _ \<Rightarrow> Num 3600),
        showQuotaPopup := True,
        isLoading := False,
        timer := js_gt (case d of Detail_object r \<Rightarrow> r | _ \<Rightarrow> Num 3600) 0 \<rparr>"
  by (cases d) (simp_all add: handleSendMessage_rejected_def countdown_effects_def Let_def)


text \<open>
  C3. A rate-limit failure with \<open>retry_after_seconds = 3725\<close> shows the popup with
  the display \<open>01h 02m 05s\<close> and starts the timer. After \<open>k\<close> ticks, up to 3725,
  the remaining time is \<open>3725 - k\<close> and the display is that of the remaining time; from
  3725 ticks on the remaining time is zero, not below, the display is
  \<open>00h 00m 00s\<close> and the timer is cleared. The popup stays shown through all of this,
  until it is closed.
\<close>

theorem quota_countdown_3725:
  "let c0 = snd (fst (handleSendMessage_rejected t (Status 429 (Detail_object (Num 3725))) (a, c)))
   in retrySeconds c0 = Num 3725 \<and> countdown c0 = js ''01h 02m 05s'' \<and>
      showQuotaPopup c0 \<and> timer c0 \<and>
      (k \<le> 3725 \<longrightarrow>
         retrySeconds ((tick ^^ k) c0) = Num (3725 - int k) \<and>
         countdown ((tick ^^ k) c0) = spec_display (3725 - int k) \<and>
         timer ((tick ^^ k) c0) = (k < 3725)) \<and>
      (3725 \<le> k \<longrightarrow>
         retrySeconds ((tick ^^ k) c0) = Num 0 \<and>
         countdown ((tick ^^ k) c0) = js ''00h 00m 00s'' \<and>
         \<not> timer ((tick ^^ k) c0)) \<and>
      showQuotaPopup ((tick ^^ k) c0) \<and>
      \<not> showQuotaPopup (closePopup ((tick ^^ k) c0))"
proof -
  define c0 where
    "c0 = snd (fst (handleSendMessage_rejected t (Status 429 (Detail_object (Num 3725))) (a, c)))"
  have c0: "c0 = c\<lparr> retrySeconds := Num 3725, countdown := formatTime (Num 3725),
                    showQuotaPopup := True, isLoading := False, timer := True \<rparr>"
    unfolding c0_def by (simp add: rejected_429_chat js_gt_def)
  have start: "showQuotaPopup c0" "retrySeconds c0 = Num 3725" "timer c0 = (0 < (3725::int))"
    "countdown c0 = formatTime (Num 3725)"
    by (simp_all add: c0)
  have display: "formatTime (Num 3725) = js ''01h 02m 05s''"
    by (simp add: formatTime_spec_display spec_display_def two_digits_def js_def)
  note run = countdown_ticks [OF start(1) start(2) _ start(3) start(4), of k, simplified]
  have small: "3725 - int k < 2 ^ 53" "(3723::int) < 2 ^ 53" "(0::int) < 2 ^ 53" by simp_all
  have upto: "k \<le> 3725 \<Longrightarrow> max 0 (3725 - int k) = 3725 - int k" by simp
  have beyond: "3725 \<le> k \<Longrightarrow> max 0 (3725 - int k) = 0" by simp
  have "retrySeconds c0 = Num 3725 \<and> countdown c0 = js ''01h 02m 05s'' \<and>
      showQuotaPopup c0 \<and> timer c0 \<and>
      (k \<le> 3725 \<longrightarrow>
         retrySeconds ((tick ^^ k) c0) = Num (3725 - int k) \<and>
         countdown ((tick ^^ k) c0) = spec_display (3725 - int k) \<and>
         timer ((tick ^^ k) c0) = (k < 3725)) \<and>
      (3725 \<le> k \<longrightarrow>
         retrySeconds ((tick ^^ k) c0) = Num 0 \<and>
         countdown ((tick ^^ k) c0) = js ''00h 00m 00s'' \<and>
         \<not> timer ((tick ^^ k) c0)) \<and>
      showQuotaPopup ((tick ^^ k) c0) \<and>
      \<not> showQuotaPopup (closePopup ((tick ^^ k) c0))"
    using start display run
    by (auto simp: upto beyond small formatTime_spec_display spec_display_clamped
        closePopup_def countdown_effects_def simp del: funpow.simps)
  then show ?thesis
    unfolding c0_def Let_def .
qed

theorem quota_countdown_3725_witness:
  "let c0 = snd (fst (handleSendMessage_rejected example_turn
                        (Status 429 (Detail_object (Num 3725))) (example_app, example_chat)))
   in (2::nat) \<le> 3725 \<and> retrySeconds ((tick ^^ 2) c0) = Num 3723 \<and>
      countdown ((tick ^^ 2) c0) = js ''01h 02m 03s'' \<and>
      timer ((tick ^^ 2) c0) \<and> showQuotaPopup ((tick ^^ 2) c0) \<and>
      (3725::nat) \<le> 3726 \<and> retrySeconds ((tick ^^ 3726) c0) = Num 0 \<and>
      countdown ((tick ^^ 3726) c0) = js ''00h 00m 00s'' \<and>
      \<not> timer ((tick ^^ 3726) c0) \<and> showQuotaPopup ((tick ^^ 3726) c0) \<and>
      \<not> showQuotaPopup (closePopup ((tick ^^ 3726) c0))"
  using quota_countdown_3725 [of example_turn example_app example_chat 2]
    quota_countdown_3725 [of example_turn example_app example_chat 3726]
  by (simp add: Let_def spec_display_def two_digits_def js_def)

section \<open>Submitting a turn\<close>













text \<open>The example submit, evaluated.\<close>

lemma example_dispatch_value:
  "example_dispatch =
     ((updateSessionMessages (Some (js ''s1''))
         [\<lparr> role = User, content = js ''What is osmosis?'' \<rparr>]
         (initialize_session (js ''s1'') example_app),
       example_chat\<lparr>inputValue := [], isLoading := True\<rparr>),
      Some example_turn)"
  by (simp add: example_dispatch_def handleSendMessage_def example_turn_def
      example_chat_def chat_init_def countdown_effects_def speak_closure_of_def
      trim_def isWhiteSpace_def js_def Let_def)
    (simp add: initialize_session_def example_app_def app_mount_def app_effects_def
      persist_sessions_def persist_messages_def catalog_write_def app_load_def app_init_def
      empty_storage_def truthy_def safeMessages_def propertyKey_def js_def)


lemma example_dispatch_app:
  "sessionId (fst (fst example_dispatch)) = Some (js ''s1'')"
  "sessionMessages (fst (fst example_dispatch)) =
     [(js ''s1'', [\<lparr> role = User, content = js ''What is osmosis?'' \<rparr>])]"
  by (simp_all add: example_dispatch_value updateSessionMessages_def initialize_session_def
      example_app_def app_mount_def app_effects_def persist_sessions_def persist_messages_def
      catalog_write_def app_load_def app_init_def empty_storage_def truthy_def propertyKey_def)




section \<open>The session catalog\<close>

lemma sessions_app_effects: "sessions (app_effects a) = sessions a"
  by (simp add: app_effects_def persist_sessions_def persist_messages_def catalog_write_def
      Let_def)

lemma stored_catalog_app_effects:
  "stored_catalog (app_effects a) =
     (if filter (\<lambda>s. s_messageCount s > 0) (sessions a) \<noteq> []
      then filter (\<lambda>s. s_messageCount s > 0) (sessions a) else stored_catalog a)"
  by (auto simp: app_effects_def persist_sessions_def persist_messages_def catalog_write_def
      stored_catalog_def Let_def)

text \<open>What \<open>handleNewSession\<close> adds to the catalog: nothing, or one entry for the session
  that was current in the render it reads.\<close>

lemma sessions_handleNewSession_in:
  "\<exists>e. sessions (handleNewSession_in r now newSessionId a) = e @ sessions a \<and>
       (e = [] \<or>
        (\<exists>s. e = [s] \<and> 1 \<le> s_messageCount s \<and> sessionId r = Some (s_id s) \<and>
             s_id s \<notin> s_id ` set (sessions r)))"
proof (cases "sessionId r")
  case None
  then show ?thesis by (simp add: handleNewSession_in_def)
next
  case (Some sid)
  show ?thesis
  proof (cases "sid = [] \<or> map_of (sessionMessages r) sid = None \<or>
                map_of (sessionMessages r) sid = Some []")
    case True
    with Some show ?thesis by (auto simp: handleNewSession_in_def)
  next
    case False
    then obtain m0 ms where ms: "map_of (sessionMessages r) sid = Some (m0 # ms)" and "sid \<noteq> []"
      by (cases "map_of (sessionMessages r) sid"; cases "the (map_of (sessionMessages r) sid)") auto
    show ?thesis
    proof (cases "find (\<lambda>s. s_id s = sid) (sessions r)")
      case None
      then have "sid \<notin> s_id ` set (sessions r)"
        by (auto simp: find_None_iff)
      with None Some ms \<open>sid \<noteq> []\<close> show ?thesis
        by (simp add: handleNewSession_in_def)
    next
      case (Some existingSession)
      with \<open>sessionId r = Some sid\<close> ms \<open>sid \<noteq> []\<close> show ?thesis
        by (simp add: handleNewSession_in_def)
    qed
  qed
qed

lemma stored_catalog_handleNewSession_in:
  "stored_catalog (handleNewSession_in r now newSessionId a) = stored_catalog a"
  by (simp add: handleNewSession_in_def stored_catalog_def Let_def
      split: option.splits list.splits)


lemma sessions_app_load:
  "sessions (app_load a) =
     (case ai_tutor_sessions (storage a) of
        Stored parsed \<Rightarrow> filter (\<lambda>s. s_messageCount s > 0) parsed
      | _ \<Rightarrow> sessions a)"
  by (simp add: app_load_def Let_def split: stored.splits)

lemma storage_app_load: "storage (app_load a) = storage a"
  by (simp add: app_load_def Let_def split: stored.splits)

lemma stored_catalog_storage: "storage a = storage b \<Longrightarrow> stored_catalog a = stored_catalog b"
  by (simp add: stored_catalog_def)

lemma app_effects_app_init: "app_effects (app_init st) = app_init st"
  by (simp add: app_effects_def persist_sessions_def persist_messages_def catalog_write_def
      app_init_def)

lemma app_init_fields: "sessions (app_init st) = []" "storage (app_init st) = st"
  by (simp_all add: app_init_def)

lemma sessions_app_mount:
  "sessions (app_mount st) =
     (case ai_tutor_sessions st of
        Stored parsed \<Rightarrow> filter (\<lambda>s. s_messageCount s > 0) parsed
      | _ \<Rightarrow> [])"
  by (simp add: app_mount_def app_effects_app_init sessions_app_effects sessions_app_load
      app_init_fields split: stored.splits)

lemma stored_catalog_app_mount:
  "stored_catalog (app_mount st) =
     (case ai_tutor_sessions st of
        Stored parsed \<Rightarrow>
          (if filter (\<lambda>s. s_messageCount s > 0) parsed \<noteq> []
           then filter (\<lambda>s. s_messageCount s > 0) parsed else parsed)
      | _ \<Rightarrow> [])"
proof -
  have "stored_catalog (app_load (app_init st)) = stored_catalog (app_init st)"
    by (rule stored_catalog_storage) (rule storage_app_load)
  moreover have "stored_catalog (app_init st)
      = (case ai_tutor_sessions st of Stored parsed \<Rightarrow> parsed | _ \<Rightarrow> [])"
    by (simp add: stored_catalog_def app_init_def)
  moreover have "sessions (app_load (app_init st)) =
     (case ai_tutor_sessions st of
        Stored parsed \<Rightarrow> filter (\<lambda>s. s_messageCount s > 0) parsed
      | _ \<Rightarrow> [])"
    by (simp add: sessions_app_load app_init_fields split: stored.splits)
  ultimately show ?thesis
    by (simp add: app_mount_def app_effects_app_init stored_catalog_app_effects
        split: stored.splits)
qed

lemma sessions_handleDeleteSession:
  "\<exists>e. sessions (handleDeleteSession d now newSessionId a)
         = e @ filter (\<lambda>s. s_id s \<noteq> d) (sessions a) \<and>
       (e = [] \<or>
        (\<exists>s. e = [s] \<and> 1 \<le> s_messageCount s \<and> s_id s = d \<and> d \<notin> s_id ` set (sessions a)))"
proof (cases "Some d = sessionId a")
  case False
  then show ?thesis by (simp add: handleDeleteSession_def)
next
  case True
  let ?a1 = "a\<lparr> sessions := filter (\<lambda>s. s_id s \<noteq> d) (sessions a),
                   sessionMessages := AList.delete d (sessionMessages a) \<rparr>"
  from sessions_handleNewSession_in [of a now newSessionId ?a1]
  obtain e where e: "sessions (handleNewSession_in a now newSessionId ?a1) = e @ sessions ?a1"
    and shape: "e = [] \<or>
        (\<exists>s. e = [s] \<and> 1 \<le> s_messageCount s \<and> sessionId a = Some (s_id s) \<and>
             s_id s \<notin> s_id ` set (sessions a))"
    by blast
  from True e have "sessions (handleDeleteSession d now newSessionId a)
      = e @ filter (\<lambda>s. s_id s \<noteq> d) (sessions a)"
    by (simp add: handleDeleteSession_def Let_def)
  moreover from shape True have "e = [] \<or>
        (\<exists>s. e = [s] \<and> 1 \<le> s_messageCount s \<and> s_id s = d \<and> d \<notin> s_id ` set (sessions a))"
    by auto
  ultimately show ?thesis by blast
qed

lemma stored_catalog_handleDeleteSession:
  "stored_catalog (handleDeleteSession d now newSessionId a) = stored_catalog a"
proof -
  have "stored_catalog (a\<lparr> sessions := xs, sessionMessages := ys \<rparr>) = stored_catalog a"
    for xs ys by (simp add: stored_catalog_def)
  then show ?thesis
    by (simp add: handleDeleteSession_def Let_def stored_catalog_handleNewSession_in)
qed

text \<open>How each operation changes the catalog and the stored catalog.\<close>

lemma sessions_apply_op:
  "\<exists>e keep. sessions (apply_op op a) = e @ filter keep (sessions a) \<and>
       (e = [] \<or>
        (\<exists>s. e = [s] \<and> 1 \<le> s_messageCount s \<and> s_id s \<notin> s_id ` set (filter keep (sessions a))))
   \<or> sessions (apply_op op a) = filter (\<lambda>s. s_messageCount s > 0) (stored_catalog a)"
proof (cases op)
  case (NewSession now newSessionId)
  from sessions_handleNewSession_in [of a now newSessionId a]
  obtain e where "sessions (handleNewSession now newSessionId a) = e @ filter (\<lambda>s. True) (sessions a)"
    and "e = [] \<or> (\<exists>s. e = [s] \<and> 1 \<le> s_messageCount s \<and>
            s_id s \<notin> s_id ` set (filter (\<lambda>s. True) (sessions a)))"
    by (auto simp: handleNewSession_def)
  with NewSession show ?thesis
    by (simp only: apply_op_def session_op.case sessions_app_effects) blast
next
  case (LoadSession l)
  have "sessions (handleLoadSession l a) = [] @ filter (\<lambda>s. True) (sessions a)"
    by (simp add: handleLoadSession_def)
  with LoadSession show ?thesis
    by (simp only: apply_op_def session_op.case sessions_app_effects) blast
next
  case (DeleteSession d now newSessionId)
  from sessions_handleDeleteSession [of d now newSessionId a]
  obtain e where "sessions (handleDeleteSession d now newSessionId a)
         = e @ filter (\<lambda>s. s_id s \<noteq> d) (sessions a)"
    and "e = [] \<or> (\<exists>s. e = [s] \<and> 1 \<le> s_messageCount s \<and>
            s_id s \<notin> s_id ` set (filter (\<lambda>s. s_id s \<noteq> d) (sessions a)))"
    by auto
  with DeleteSession show ?thesis
    by (simp only: apply_op_def session_op.case sessions_app_effects) blast
next
  case (AppendMessage sid msgs)
  have "sessions (updateSessionMessages sid msgs a) = [] @ filter (\<lambda>s. True) (sessions a)"
    by (simp add: updateSessionMessages_def)
  with AppendMessage show ?thesis
    by (simp only: apply_op_def session_op.case sessions_app_effects) blast
next
  case (InitializeSession newSessionId)
  have "sessions (initialize_session newSessionId a) = [] @ filter (\<lambda>s. True) (sessions a)"
    by (simp add: initialize_session_def)
  with InitializeSession show ?thesis
    by (simp only: apply_op_def session_op.case sessions_app_effects) blast
next
  case Restart
  then show ?thesis
    by (simp add: apply_op_def sessions_app_mount stored_catalog_def split: stored.splits)
qed

lemma stored_catalog_apply_op:
  "stored_catalog (apply_op op a) = stored_catalog a \<or>
   stored_catalog (apply_op op a) = filter (\<lambda>s. s_messageCount s > 0) (sessions (apply_op op a)) \<or>
   stored_catalog (apply_op op a) = filter (\<lambda>s. s_messageCount s > 0) (stored_catalog a)"
proof (cases op)
  case (NewSession now newSessionId)
  then show ?thesis
    by (simp add: apply_op_def stored_catalog_app_effects sessions_app_effects
        handleNewSession_def stored_catalog_handleNewSession_in)
next
  case (LoadSession l)
  moreover have "stored_catalog (handleLoadSession l a) = stored_catalog a"
    by (simp add: handleLoadSession_def stored_catalog_def)
  ultimately show ?thesis
    by (simp add: apply_op_def stored_catalog_app_effects sessions_app_effects)
next
  case (DeleteSession d now newSessionId)
  then show ?thesis
    by (simp add: apply_op_def stored_catalog_app_effects sessions_app_effects
        stored_catalog_handleDeleteSession)
next
  case (AppendMessage sid msgs)
  moreover have "stored_catalog (updateSessionMessages sid msgs a) = stored_catalog a"
    by (simp add: updateSessionMessages_def stored_catalog_def)
  ultimately show ?thesis
    by (simp add: apply_op_def stored_catalog_app_effects sessions_app_effects)
next
  case (InitializeSession newSessionId)
  moreover have "stored_catalog (initialize_session newSessionId a) = stored_catalog a"
    by (simp add: initialize_session_def stored_catalog_def)
  ultimately show ?thesis
    by (simp add: apply_op_def stored_catalog_app_effects sessions_app_effects)
next
  case Restart
  have "stored_catalog a = (case ai_tutor_sessions (storage a) of Stored p \<Rightarrow> p | _ \<Rightarrow> [])"
    by (simp add: stored_catalog_def)
  with Restart show ?thesis
    by (cases "ai_tutor_sessions (storage a)")
      (simp_all add: apply_op_def stored_catalog_app_mount sessions_app_mount)
qed


lemma counted_apply_op:
  assumes "list_all (\<lambda>s. 1 \<le> s_messageCount s) (sessions a)"
    and "list_all (\<lambda>s. 1 \<le> s_messageCount s) (stored_catalog a)"
  shows "list_all (\<lambda>s. 1 \<le> s_messageCount s) (sessions (apply_op op a)) \<and>
         list_all (\<lambda>s. 1 \<le> s_messageCount s) (stored_catalog (apply_op op a))"
proof -
  have s: "list_all (\<lambda>s. 1 \<le> s_messageCount s) (sessions (apply_op op a))"
    using sessions_apply_op [of op a] assms by (auto simp: list_all_iff)
  with stored_catalog_apply_op [of op a] assms(2) show ?thesis
    by (auto simp: list_all_iff)
qed

lemma distinct_apply_op:
  assumes "distinct (map s_id (sessions a))" and "distinct (map s_id (stored_catalog a))"
  shows "distinct (map s_id (sessions (apply_op op a))) \<and>
         distinct (map s_id (stored_catalog (apply_op op a)))"
proof -
  have s: "distinct (map s_id (sessions (apply_op op a)))"
    using sessions_apply_op [of op a] assms by (auto simp: distinct_map_filter)
  with stored_catalog_apply_op [of op a] assms(2) show ?thesis
    by (auto simp: distinct_map_filter)
qed

lemma app_mount_empty:
  "sessions (app_mount empty_storage) = []" "stored_catalog (app_mount empty_storage) = []"
  by (simp_all add: sessions_app_mount stored_catalog_app_mount empty_storage_def)

lemma counted_run_ops:
  "list_all (\<lambda>s. 1 \<le> s_messageCount s) (sessions a) \<Longrightarrow>
   list_all (\<lambda>s. 1 \<le> s_messageCount s) (stored_catalog a) \<Longrightarrow>
   list_all (\<lambda>s. 1 \<le> s_messageCount s) (sessions (run_ops ops a)) \<and>
   list_all (\<lambda>s. 1 \<le> s_messageCount s) (stored_catalog (run_ops ops a))"
proof (induction ops arbitrary: a)
  case Nil
  then show ?case by (simp add: run_ops_def)
next
  case (Cons op ops)
  from counted_apply_op [OF Cons.prems, of op] Cons.IH [of "apply_op op a"]
  show ?case by (simp add: run_ops_def)
qed

lemma distinct_run_ops:
  "distinct (map s_id (sessions a)) \<Longrightarrow> distinct (map s_id (stored_catalog a)) \<Longrightarrow>
   distinct (map s_id (sessions (run_ops ops a))) \<and>
   distinct (map s_id (stored_catalog (run_ops ops a)))"
proof (induction ops arbitrary: a)
  case Nil
  then show ?case by (simp add: run_ops_def)
next
  case (Cons op ops)
  from distinct_apply_op [OF Cons.prems, of op] Cons.IH [of "apply_op op a"]
  show ?case by (simp add: run_ops_def)
qed

lemma catalog_write_counted:
  "catalog_write a = Some w \<Longrightarrow> list_all (\<lambda>s. 1 \<le> s_messageCount s) w"
  by (auto simp: catalog_write_def Let_def list_all_iff split: if_splits)

lemma new_session_of_empty:
  assumes "safeMessages a = []"
  shows "sessions (handleNewSession now newSessionId a) = sessions a"
proof (cases "sessionId a")
  case None
  then show ?thesis by (simp add: handleNewSession_def handleNewSession_in_def)
next
  case (Some sid)
  with assms have "map_of (sessionMessages a) sid = None \<or> map_of (sessionMessages a) sid = Some []"
    by (simp add: safeMessages_def propertyKey_def split: option.splits)
  with Some show ?thesis
    by (auto simp: handleNewSession_def handleNewSession_in_def)
qed

text \<open>
  C8. From a first start on empty storage, after any sequence of session operations
  (new session, load session, delete session, append message, session initialisation,
  restart of the page), every entry of the catalog and every entry of the stored catalog
  has \<open>messageCount\<close> at least one. Whatever the state, a catalog that the
  persistence effect writes has only such entries, and a new session started while the
  current one has no message adds nothing to the catalog.
\<close>

theorem catalog_has_no_empty_session:
  "list_all (\<lambda>s. 1 \<le> s_messageCount s) (sessions (run_ops ops (app_mount empty_storage))) \<and>
   list_all (\<lambda>s. 1 \<le> s_messageCount s) (stored_catalog (run_ops ops (app_mount empty_storage))) \<and>
   (\<forall>w. catalog_write a = Some w \<longrightarrow> list_all (\<lambda>s. 1 \<le> s_messageCount s) w) \<and>
   (safeMessages a = [] \<longrightarrow> sessions (handleNewSession now newSessionId a) = sessions a)"
  using counted_run_ops [of "app_mount empty_storage" ops]
  by (simp add: app_mount_empty catalog_write_counted new_session_of_empty)

lemma example_ops_sessions:
  "sessions (run_ops example_ops (app_mount empty_storage)) =
     [\<lparr> s_id = js ''s1'', s_timestamp = js ''2026-01-01'', s_messageCount = 1,
        s_preview = js ''What is osmosis?...'' \<rparr>]"
  by (simp add: example_ops_def run_ops_def apply_op_def app_mount_def app_effects_def
      persist_sessions_def persist_messages_def catalog_write_def app_load_def app_init_def
      empty_storage_def truthy_def initialize_session_def updateSessionMessages_def
      propertyKey_def handleNewSession_def handleNewSession_in_def handleLoadSession_def
      js_def Let_def)


lemma example_app_empty: "safeMessages example_app = []"
  by (simp add: example_app_def app_mount_def app_effects_def persist_sessions_def
      persist_messages_def catalog_write_def app_load_def app_init_def empty_storage_def
      truthy_def safeMessages_def)

theorem catalog_has_no_empty_session_witness:
  "sessions (run_ops example_ops (app_mount empty_storage)) =
     [\<lparr> s_id = js ''s1'', s_timestamp = js ''2026-01-01'', s_messageCount = 1,
        s_preview = js ''What is osmosis?...'' \<rparr>] \<and>
   list_all (\<lambda>s. 1 \<le> s_messageCount s) (sessions (run_ops example_ops (app_mount empty_storage))) \<and>
   catalog_write (run_ops example_ops (app_mount empty_storage)) =
     Some [\<lparr> s_id = js ''s1'', s_timestamp = js ''2026-01-01'', s_messageCount = 1,
             s_preview = js ''What is osmosis?...'' \<rparr>] \<and>
   safeMessages example_app = [] \<and>
   sessions (handleNewSession (js ''2026-01-01'') (js ''s2'') example_app) = sessions example_app"
  using catalog_has_no_empty_session [of example_ops "run_ops example_ops (app_mount empty_storage)"]
    catalog_has_no_empty_session [of example_ops example_app "js ''2026-01-01''" "js ''s2''"]
  by (simp add: example_ops_sessions example_app_empty catalog_write_def)

lemma delete_listed_session:
  assumes "d \<in> s_id ` set (sessions a)"
  shows "d \<notin> s_id ` set (sessions (handleDeleteSession d now newSessionId a))"
  using sessions_handleDeleteSession [of d now newSessionId a] assms by auto

lemma new_session_of_listed:
  assumes "sessionId a = Some sid" and "sid \<in> s_id ` set (sessions a)"
  shows "sessions (handleNewSession now newSessionId a) = sessions a"
  using sessions_handleNewSession_in [of a now newSessionId a] assms
  by (auto simp: handleNewSession_def) (metis image_eqI)

text \<open>
  C10. From a first start on empty storage, after any sequence of session operations,
  no two entries of the catalog, and no two entries of the stored catalog, have the same
  session id. Starting a new session while the current one is already listed inserts
  nothing, and deleting a listed session leaves no entry with its id.
\<close>

theorem catalog_ids_unique:
  "distinct (map s_id (sessions (run_ops ops (app_mount empty_storage)))) \<and>
   distinct (map s_id (stored_catalog (run_ops ops (app_mount empty_storage)))) \<and>
   (sessionId a = Some sid \<and> sid \<in> s_id ` set (sessions a) \<longrightarrow>
      sessions (handleNewSession now newSessionId a) = sessions a) \<and>
   (d \<in> s_id ` set (sessions a) \<longrightarrow>
      d \<notin> s_id ` set (sessions (handleDeleteSession d now newSessionId a)))"
  using distinct_run_ops [of "app_mount empty_storage" ops]
  by (simp add: app_mount_empty new_session_of_listed delete_listed_session)

theorem catalog_ids_unique_witness:
  "map s_id (sessions (run_ops example_ops (app_mount empty_storage))) = [js ''s1''] \<and>
   distinct (map s_id (sessions (run_ops example_ops (app_mount empty_storage)))) \<and>
   sessionId (handleLoadSession (js ''s1'') (run_ops example_ops (app_mount empty_storage)))
     = Some (js ''s1'') \<and>
   js ''s1'' \<in> s_id ` set (sessions (handleLoadSession (js ''s1'')
                                       (run_ops example_ops (app_mount empty_storage)))) \<and>
   sessions (handleNewSession (js ''2026-01-04'') (js ''s5'')
               (handleLoadSession (js ''s1'') (run_ops example_ops (app_mount empty_storage))))
     = sessions (handleLoadSession (js ''s1'') (run_ops example_ops (app_mount empty_storage))) \<and>
   js ''s1'' \<notin> s_id ` set (sessions (handleDeleteSession (js ''s1'') (js ''2026-01-04'') (js ''s5'')
               (handleLoadSession (js ''s1'') (run_ops example_ops (app_mount empty_storage)))))"
proof -
  let ?a = "handleLoadSession (js ''s1'') (run_ops example_ops (app_mount empty_storage))"
  have cur: "sessionId ?a = Some (js ''s1'')"
    by (simp add: handleLoadSession_def)
  have cat: "sessions ?a = sessions (run_ops example_ops (app_mount empty_storage))"
    by (simp add: handleLoadSession_def)
  have listed: "js ''s1'' \<in> s_id ` set (sessions ?a)"
    by (simp add: cat example_ops_sessions)
  from cur listed
    catalog_ids_unique [of example_ops ?a "js ''s1''" "js ''2026-01-04''" "js ''s5''" "js ''s1''"]
  show ?thesis
    by (simp add: example_ops_sessions)
qed

section \<open>The settling of a request\<close>

lemma sessionMessages_resolved_app:
  "sessionMessages (resolved_app t resp a) =
     AList.update (propertyKey (session_id t))
       (newMessages t @ [\<lparr> role = Assistant, content = answer resp \<rparr>]) (sessionMessages a)"
  by (simp add: resolved_app_def updateSessionMessages_def handleEmotionChange_def
      handleResponseChange_def Let_def split: option.splits)

lemma transcripts_resolved_app:
  "map_of (sessionMessages (resolved_app t resp a)) k =
     (if k = propertyKey (session_id t)
      then Some (newMessages t @ [\<lparr> role = Assistant, content = answer resp \<rparr>])
      else map_of (sessionMessages a) k)"
  by (simp add: sessionMessages_resolved_app update_conv')

lemma sessionId_resolved_app:
  "truthy (session_id t) \<Longrightarrow> sessionId (resolved_app t resp a) = sessionId a"
  by (simp add: resolved_app_def updateSessionMessages_def handleEmotionChange_def
      handleResponseChange_def Let_def split: option.splits)

lemma currentEmotion_resolved_app:
  "currentEmotion (resolved_app t resp a) =
     (case emotion resp of None \<Rightarrow> currentEmotion a
      | Some e \<Rightarrow> if e = [] then currentEmotion a else e)"
  by (simp add: resolved_app_def updateSessionMessages_def handleEmotionChange_def
      handleResponseChange_def Let_def split: option.splits)

lemma dispatch_session:
  "handleSendMessage (a0, c0) = (s1, Some t) \<Longrightarrow> session_id t = sessionId a0"
  by (auto simp: handleSendMessage_def Let_def split: if_splits)

text \<open>
  C4, as the code has it. A response is never discarded: whatever App has become when
  the request resolves, the transcript stored under the session id that was current at
  the submit is replaced by the messages captured at the submit followed by the
  assistant's message (what was stored under that id in between is overwritten, not
  extended), and the transcript of every other session is left as it is. When another
  session has become the current one, the transcript on view does not change.
\<close>

theorem late_response_kept_for_its_session:
  "handleSendMessage (a0, c0) = (s1, Some t) \<longrightarrow>
     session_id t = sessionId a0 \<and>
     (\<forall>k. map_of (sessionMessages (resolved_app t resp a)) k =
        (if k = propertyKey (sessionId a0)
         then Some (newMessages t @ [\<lparr> role = Assistant, content = answer resp \<rparr>])
         else map_of (sessionMessages a) k)) \<and>
     (truthy (sessionId a0) \<and> propertyKey (sessionId a) \<noteq> propertyKey (sessionId a0) \<longrightarrow>
        safeMessages (resolved_app t resp a) = safeMessages a)"
proof
  assume sent: "handleSendMessage (a0, c0) = (s1, Some t)"
  then have sid: "session_id t = sessionId a0" by (rule dispatch_session)
  have view: "safeMessages (resolved_app t resp a) = safeMessages a"
    if "truthy (sessionId a0) \<and> propertyKey (sessionId a) \<noteq> propertyKey (sessionId a0)"
    using that sid
    by (simp add: safeMessages_def transcripts_resolved_app sessionId_resolved_app)
  from sid view show "session_id t = sessionId a0 \<and>
     (\<forall>k. map_of (sessionMessages (resolved_app t resp a)) k =
        (if k = propertyKey (sessionId a0)
         then Some (newMessages t @ [\<lparr> role = Assistant, content = answer resp \<rparr>])
         else map_of (sessionMessages a) k)) \<and>
     (truthy (sessionId a0) \<and> propertyKey (sessionId a) \<noteq> propertyKey (sessionId a0) \<longrightarrow>
        safeMessages (resolved_app t resp a) = safeMessages a)"
    by (simp add: transcripts_resolved_app)
qed

lemma example_switched:
  "sessionId (handleLoadSession (js ''s2'') (fst (fst example_dispatch))) = Some (js ''s2'')"
  "sessionMessages (handleLoadSession (js ''s2'') (fst (fst example_dispatch))) =
     [(js ''s1'', [\<lparr> role = User, content = js ''What is osmosis?'' \<rparr>])]"
  by (simp_all add: handleLoadSession_def example_dispatch_app)

theorem late_response_kept_for_its_session_witness:
  "handleSendMessage (initialize_session (js ''s1'') example_app,
                      example_chat\<lparr>inputValue := js ''What is osmosis?''\<rparr>)
     = (fst example_dispatch, Some example_turn) \<and>
   truthy (sessionId (initialize_session (js ''s1'') example_app)) \<and>
   propertyKey (sessionId (handleLoadSession (js ''s2'') (fst (fst example_dispatch))))
     \<noteq> propertyKey (sessionId (initialize_session (js ''s1'') example_app)) \<and>
   map_of (sessionMessages (resolved_app example_turn example_response
             (handleLoadSession (js ''s2'') (fst (fst example_dispatch))))) (js ''s1'')
     = Some [\<lparr> role = User, content = js ''What is osmosis?'' \<rparr>,
             \<lparr> role = Assistant, content = answer example_response \<rparr>] \<and>
   map_of (sessionMessages (resolved_app example_turn example_response
             (handleLoadSession (js ''s2'') (fst (fst example_dispatch))))) (js ''s2'') = None \<and>
   safeMessages (resolved_app example_turn example_response
                   (handleLoadSession (js ''s2'') (fst (fst example_dispatch))))
     = safeMessages (handleLoadSession (js ''s2'') (fst (fst example_dispatch)))"
proof -
  let ?a0 = "initialize_session (js ''s1'') example_app"
  let ?c0 = "example_chat\<lparr>inputValue := js ''What is osmosis?''\<rparr>"
  let ?a2 = "handleLoadSession (js ''s2'') (fst (fst example_dispatch))"
  have sent: "handleSendMessage (?a0, ?c0) = (fst example_dispatch, Some example_turn)"
    using example_dispatch_value by (simp add: example_dispatch_def)
  have cur: "sessionId ?a0 = Some (js ''s1'')"
    by (simp add: initialize_session_def example_app_def app_mount_def app_effects_def
        persist_sessions_def persist_messages_def catalog_write_def app_load_def app_init_def
        empty_storage_def truthy_def)
  have names: "js ''s1'' \<noteq> []" "js ''s2'' \<noteq> js ''s1''"
    by (simp_all add: js_def)
  have keys: "truthy (sessionId ?a0)" "propertyKey (sessionId ?a2) \<noteq> propertyKey (sessionId ?a0)"
    by (simp_all add: cur example_switched truthy_def propertyKey_def names)
  from sent keys
    late_response_kept_for_its_session [of ?a0 ?c0 "fst example_dispatch" example_turn
      example_response ?a2]
  show ?thesis
    by (simp add: cur example_switched propertyKey_def names)
      (simp add: example_turn_def js_def)
qed

text \<open>
  The response of a request sent in session \<open>s1\<close> resolves after the user has loaded
  session \<open>s2\<close>: the transcripts change, the answer is stored under \<open>s1\<close>.
\<close>

theorem late_response_not_discarded:
  "snd example_dispatch = Some example_turn \<and>
   sessionId (fst (fst example_dispatch)) = Some (js ''s1'') \<and>
   sessionId (handleLoadSession (js ''s2'') (fst (fst example_dispatch))) = Some (js ''s2'') \<and>
   sessionMessages (handleLoadSession (js ''s2'') (fst (fst example_dispatch))) =
     [(js ''s1'', [\<lparr> role = User, content = js ''What is osmosis?'' \<rparr>])] \<and>
   sessionMessages (resolved_app example_turn example_response
                      (handleLoadSession (js ''s2'') (fst (fst example_dispatch)))) =
     [(js ''s1'', [\<lparr> role = User, content = js ''What is osmosis?'' \<rparr>,
                   \<lparr> role = Assistant,
                     content = js ''Osmosis is the movement of water across a membrane.'' \<rparr>])] \<and>
   sessionMessages (resolved_app example_turn example_response
                      (handleLoadSession (js ''s2'') (fst (fst example_dispatch))))
     \<noteq> sessionMessages (handleLoadSession (js ''s2'') (fst (fst example_dispatch)))"
  by (simp add: sessionMessages_resolved_app example_switched example_dispatch_app)
    (simp add: example_dispatch_value example_turn_def example_response_def propertyKey_def
      js_def)


text \<open>
  C5, as the code has it. On a resolved request the message appended to the transcript
  of the turn has the role \<open>assistant\<close> and the answer as its content, and no
  \<open>emotion\<close> property. The emotion of the response goes to the mascot only: a
  non-empty emotion becomes \<open>currentEmotion\<close>, and without one \<open>currentEmotion\<close>
  keeps its value.
\<close>

theorem assistant_message_without_emotion:
  "map_of (sessionMessages (resolved_app t resp a)) (propertyKey (session_id t)) =
     Some (newMessages t @ [\<lparr> role = Assistant, content = answer resp \<rparr>]) \<and>
   message_get \<lparr> role = Assistant, content = answer resp \<rparr> ''role'' = Some (js ''assistant'') \<and>
   message_get \<lparr> role = Assistant, content = answer resp \<rparr> ''content'' = Some (answer resp) \<and>
   message_get \<lparr> role = Assistant, content = answer resp \<rparr> ''emotion'' = None \<and>
   currentEmotion (resolved_app t resp a) =
     (case emotion resp of
        None \<Rightarrow> currentEmotion a
      | Some e \<Rightarrow> if e = [] then currentEmotion a else e)"
  by (simp add: transcripts_resolved_app currentEmotion_resolved_app message_get_def
      role_name_def)

theorem assistant_message_without_emotion_witness:
  "map_of (sessionMessages (resolved_app example_turn example_response
                              (fst (fst example_dispatch)))) (js ''s1'') =
     Some [\<lparr> role = User, content = js ''What is osmosis?'' \<rparr>,
           \<lparr> role = Assistant, content = answer example_response \<rparr>] \<and>
   currentEmotion (resolved_app example_turn example_response (fst (fst example_dispatch)))
     = js ''explaining''"
proof -
  have key: "propertyKey (session_id example_turn) = js ''s1''"
    by (simp add: example_turn_def propertyKey_def)
  have sent: "newMessages example_turn = [\<lparr> role = User, content = js ''What is osmosis?'' \<rparr>]"
    by (simp add: example_turn_def)
  have tag: "emotion example_response = Some (js ''explaining'')" "js ''explaining'' \<noteq> []"
    by (simp_all add: example_response_def js_def)
  from assistant_message_without_emotion
          [of example_turn example_response "fst (fst example_dispatch)"]
  show ?thesis
    by (simp add: key sent tag)
qed

text \<open>
  The appended message carries neither the emotion \<open>explaining\<close> of the response
  nor, for a response without emotion, the tag \<open>neutral\<close>; and a mascot that was
  \<open>happy\<close> stays so when the response has no emotion.
\<close>

theorem assistant_message_emotion_counterexample:
  "message_get
     (last (safeMessages (resolved_app example_turn example_response
                            (fst (fst example_dispatch))))) ''emotion''
     \<noteq> Some (js ''explaining'') \<and>
   message_get
     (last (safeMessages (resolved_app example_turn (example_response\<lparr>emotion := None\<rparr>)
                            (fst (fst example_dispatch))))) ''emotion''
     \<noteq> Some (js ''neutral'') \<and>
   currentEmotion (resolved_app example_turn (example_response\<lparr>emotion := None\<rparr>)
                     (handleEmotionChange (js ''happy'') (fst (fst example_dispatch))))
     = js ''happy''"
proof -
  have key: "propertyKey (session_id example_turn) = js ''s1''"
    by (simp add: example_turn_def propertyKey_def)
  have cur: "sessionId (resolved_app example_turn resp (fst (fst example_dispatch)))
             = Some (js ''s1'')" for resp
    by (simp add: sessionId_resolved_app example_dispatch_app example_turn_def truthy_def js_def)
  have view: "safeMessages (resolved_app example_turn resp (fst (fst example_dispatch)))
      = newMessages example_turn @ [\<lparr> role = Assistant, content = answer resp \<rparr>]" for resp
    by (simp add: safeMessages_def cur transcripts_resolved_app key)
      (simp add: propertyKey_def)
  show ?thesis
    by (simp add: view message_get_def currentEmotion_resolved_app handleEmotionChange_def)
qed

section \<open>The delay of a rate limit\<close>

text \<open>
  C6, as the code has it. On a status 429 whose \<open>detail\<close> is not an object (absent, or
  a string) the countdown starts at 3600 seconds, displayed as \<open>01h 00m 00s\<close>. When
  \<open>detail\<close> is an object its \<open>retry_after_seconds\<close> is taken as it is, and the
  timer runs only if that is a positive number.
\<close>

theorem rate_limit_default_delay:
  "let c' = snd (fst (handleSendMessage_rejected t (Status 429 d) (a, c)))
   in (d = Detail_absent \<or> d = Detail_string s \<longrightarrow>
         retrySeconds c' = Num 3600 \<and> countdown c' = js ''01h 00m 00s'' \<and>
         showQuotaPopup c' \<and> timer c') \<and>
      (d = Detail_object r \<longrightarrow>
         retrySeconds c' = r \<and> countdown c' = formatTime r \<and>
         showQuotaPopup c' \<and> timer c' = js_gt r 0)"
proof -
  have "formatTime (Num 3600) = js ''01h 00m 00s''"
    by (simp add: formatTime_spec_display spec_display_def two_digits_def js_def)
  then show ?thesis
    by (auto simp: Let_def rejected_429_chat js_gt_def)
qed

theorem rate_limit_default_delay_witness:
  "retrySeconds (snd (fst (handleSendMessage_rejected example_turn
       (Status 429 (Detail_string (js ''Rate limit exceeded''))) (example_app, example_chat))))
     = Num 3600 \<and>
   countdown (snd (fst (handleSendMessage_rejected example_turn
       (Status 429 (Detail_string (js ''Rate limit exceeded''))) (example_app, example_chat))))
     = js ''01h 00m 00s'' \<and>
   retrySeconds (snd (fst (handleSendMessage_rejected example_turn
       (Status 429 (Detail_object (Num 120))) (example_app, example_chat))))
     = Num 120 \<and>
   countdown (snd (fst (handleSendMessage_rejected example_turn
       (Status 429 (Detail_object (Num 120))) (example_app, example_chat))))
     = js ''00h 02m 00s''"
  using rate_limit_default_delay [of example_turn "Detail_string (js ''Rate limit exceeded'')"
          example_app example_chat "js ''Rate limit exceeded''" Undefined]
    rate_limit_default_delay [of example_turn "Detail_object (Num 120)"
          example_app example_chat "[]" "Num 120"]
  by (simp add: Let_def formatTime_spec_display spec_display_def two_digits_def js_def)

text \<open>
  A status 429 whose \<open>detail\<close> is an object without \<open>retry_after_seconds\<close>: the
  popup is shown with no delay at all, not with 3600 seconds.
\<close>

theorem rate_limit_object_without_delay:
  "retrySeconds (snd (fst (handleSendMessage_rejected example_turn
       (Status 429 (Detail_object Undefined)) (example_app, example_chat))))
     \<noteq> Num 3600 \<and>
   retrySeconds (snd (fst (handleSendMessage_rejected example_turn
       (Status 429 (Detail_object Undefined)) (example_app, example_chat))))
     = Undefined \<and>
   countdown (snd (fst (handleSendMessage_rejected example_turn
       (Status 429 (Detail_object Undefined)) (example_app, example_chat))))
     = js ''00h 00m 00s'' \<and>
   showQuotaPopup (snd (fst (handleSendMessage_rejected example_turn
       (Status 429 (Detail_object Undefined)) (example_app, example_chat)))) \<and>
   \<not> timer (snd (fst (handleSendMessage_rejected example_turn
       (Status 429 (Detail_object Undefined)) (example_app, example_chat))))"
  by (simp add: rejected_429_chat js_gt_def formatTime_def)


section \<open>Speech playback\<close>

lemma trim_Nil: "trim [] = []"
  by (simp add: trim_def)


lemma speakText_silent:
  assumes "\<not> (currentUtteranceRef c \<noteq> None \<and> isToggle)"
    and "(\<not> cl_autoSpeak cl \<and> \<not> forceSpeak) \<or> trim text = []"
  shows "speakText removeMd cl text forceSpeak isToggle (a, c) =
     (if currentUtteranceRef c = None then (a, c)
      else (handleSpeakingChange False a,
            c\<lparr>synth := [], isSpeaking := False, currentUtteranceRef := None\<rparr>))"
  using assms by (auto simp: speakText_def Let_def)

lemma speakText_starts:
  assumes "\<not> (currentUtteranceRef c \<noteq> None \<and> isToggle)"
    and "cl_autoSpeak cl \<or> forceSpeak" and "trim text \<noteq> []"
  shows "speakText removeMd cl text forceSpeak isToggle (a, c) =
     (if currentUtteranceRef c = None
      then (a, c\<lparr> currentUtteranceRef :=
                     Some \<lparr> u_text = removeMd text, u_voice = cl_selectedVoice cl,
                            u_rate = cl_speechRate cl, u_pitch = 1 \<rparr>,
                   synth := synth c @ [\<lparr> u_text = removeMd text, u_voice = cl_selectedVoice cl,
                                          u_rate = cl_speechRate cl, u_pitch = 1 \<rparr>] \<rparr>)
      else (handleSpeakingChange False a,
            c\<lparr> synth := [\<lparr> u_text = removeMd text, u_voice = cl_selectedVoice cl,
                            u_rate = cl_speechRate cl, u_pitch = 1 \<rparr>],
               isSpeaking := False,
               currentUtteranceRef :=
                 Some \<lparr> u_text = removeMd text, u_voice = cl_selectedVoice cl,
                        u_rate = cl_speechRate cl, u_pitch = 1 \<rparr> \<rparr>))"
proof -
  from assms(3) have "text \<noteq> []" by (auto simp: trim_Nil)
  with assms show ?thesis by (auto simp: speakText_def Let_def)
qed

lemma chat_init_queue:
  "synth (chat_init r s v) = []" "currentUtteranceRef (chat_init r s v) = None"
  by (simp_all add: chat_init_def countdown_effects_def)







section \<open>What is spoken\<close>

text \<open>
  C7, as the code has it. For a call of \<open>speakText\<close> that is not a toggle stopping a
  playback: with auto-speak off and the call not forced nothing is queued; with a text
  that is empty or blank before any stripping nothing is queued; in every other case
  the stripped text is queued for playback, with no test on the stripped text.
\<close>

theorem speak_guards:
  "\<not> (currentUtteranceRef c \<noteq> None \<and> isToggle) \<longrightarrow>
     (let c' = snd (speakText removeMd cl spoken forceSpeak isToggle (a, c));
          rest = (if currentUtteranceRef c = None then synth c else []);
          new = \<lparr> u_text = removeMd spoken, u_voice = cl_selectedVoice cl,
                  u_rate = cl_speechRate cl, u_pitch = 1 \<rparr>
      in (\<not> cl_autoSpeak cl \<and> \<not> forceSpeak \<longrightarrow>
            synth c' = rest \<and> currentUtteranceRef c' = None) \<and>
         (trim spoken = [] \<longrightarrow> synth c' = rest \<and> currentUtteranceRef c' = None) \<and>
         ((cl_autoSpeak cl \<or> forceSpeak) \<and> trim spoken \<noteq> [] \<longrightarrow>
            synth c' = rest @ [new] \<and> currentUtteranceRef c' = Some new))"
proof
  assume open_call: "\<not> (currentUtteranceRef c \<noteq> None \<and> isToggle)"
  show "let c' = snd (speakText removeMd cl spoken forceSpeak isToggle (a, c));
          rest = (if currentUtteranceRef c = None then synth c else []);
          new = \<lparr> u_text = removeMd spoken, u_voice = cl_selectedVoice cl,
                  u_rate = cl_speechRate cl, u_pitch = 1 \<rparr>
      in (\<not> cl_autoSpeak cl \<and> \<not> forceSpeak \<longrightarrow>
            synth c' = rest \<and> currentUtteranceRef c' = None) \<and>
         (trim spoken = [] \<longrightarrow> synth c' = rest \<and> currentUtteranceRef c' = None) \<and>
         ((cl_autoSpeak cl \<or> forceSpeak) \<and> trim spoken \<noteq> [] \<longrightarrow>
            synth c' = rest @ [new] \<and> currentUtteranceRef c' = Some new)"
  proof (cases "(cl_autoSpeak cl \<or> forceSpeak) \<and> trim spoken \<noteq> []")
    case True
    with open_call speakText_starts [of c isToggle cl forceSpeak spoken removeMd a]
    show ?thesis by (simp add: Let_def)
  next
    case False
    with open_call speakText_silent [of c isToggle cl forceSpeak spoken removeMd a]
    show ?thesis by (auto simp: Let_def)
  qed
qed

lemma strip_marks_rule: "strip_marks (js ''***'') = []"
  by (simp add: strip_marks_def js_def)

lemma rule_not_blank: "trim (js ''***'') \<noteq> []"
  by (simp add: trim_def isWhiteSpace_def js_def)

theorem speak_guards_witness:
  "\<not> (currentUtteranceRef example_chat \<noteq> None \<and> False) \<and>
   trim (js ''  '') = [] \<and>
   synth (snd (speakText strip_marks (speak_closure_of example_chat) (js ''  '') True False
                 (example_app, example_chat))) = [] \<and>
   synth (snd (speakText strip_marks ((speak_closure_of example_chat)\<lparr>cl_autoSpeak := False\<rparr>)
                 (js ''# Hello'') False False (example_app, example_chat))) = [] \<and>
   trim (js ''# Hello'') \<noteq> [] \<and>
   synth (snd (speakText strip_marks (speak_closure_of example_chat) (js ''# Hello'') True False
                 (example_app, example_chat)))
     = [\<lparr> u_text = js '' Hello'', u_voice = None, u_rate = 1, u_pitch = 1 \<rparr>]"
proof -
  let ?cl = "speak_closure_of example_chat"
  have idle: "currentUtteranceRef example_chat = None" "synth example_chat = []"
    by (simp_all add: example_chat_def chat_init_queue)
  have cl: "cl_selectedVoice ?cl = None" "cl_speechRate ?cl = 1" "cl_autoSpeak ?cl"
    by (simp_all add: speak_closure_of_def example_chat_def chat_init_def countdown_effects_def)
  have blank: "trim (js ''  '') = []"
    by (simp add: trim_def isWhiteSpace_def js_def)
  have filled: "trim (js ''# Hello'') \<noteq> []"
    by (simp add: trim_def isWhiteSpace_def js_def)
  have stripped: "strip_marks (js ''# Hello'') = js '' Hello''"
    by (simp add: strip_marks_def js_def)
  from idle blank
    speak_guards [of example_chat False strip_marks ?cl "js ''  ''" True example_app]
  have one: "synth (snd (speakText strip_marks ?cl (js ''  '') True False
                 (example_app, example_chat))) = []"
    by (simp add: Let_def)
  from idle
    speak_guards [of example_chat False strip_marks "?cl\<lparr>cl_autoSpeak := False\<rparr>"
      "js ''# Hello''" False example_app]
  have two: "synth (snd (speakText strip_marks (?cl\<lparr>cl_autoSpeak := False\<rparr>)
                 (js ''# Hello'') False False (example_app, example_chat))) = []"
    by (simp add: Let_def)
  from idle filled
    speak_guards [of example_chat False strip_marks ?cl "js ''# Hello''" True example_app]
  have three: "synth (snd (speakText strip_marks ?cl (js ''# Hello'') True False
                 (example_app, example_chat)))
     = [\<lparr> u_text = js '' Hello'', u_voice = None, u_rate = 1, u_pitch = 1 \<rparr>]"
    by (simp add: Let_def cl stripped)
  from idle blank filled one two three show ?thesis by simp
qed

text \<open>
  The text \<open>***\<close> is not blank and strips to the empty string: the playback of an
  empty utterance is started.
\<close>

theorem speak_starts_empty_playback:
  "trim (js ''***'') \<noteq> [] \<and>
   strip_marks (js ''***'') = [] \<and>
   currentUtteranceRef example_chat = None \<and>
   synth (snd (speakText strip_marks (speak_closure_of example_chat) (js ''***'') True False
                 (example_app, example_chat)))
     = [\<lparr> u_text = [], u_voice = None, u_rate = 1, u_pitch = 1 \<rparr>] \<and>
   currentUtteranceRef
     (snd (speakText strip_marks (speak_closure_of example_chat) (js ''***'') True False
             (example_app, example_chat)))
     = Some \<lparr> u_text = [], u_voice = None, u_rate = 1, u_pitch = 1 \<rparr>"
proof -
  have idle: "currentUtteranceRef example_chat = None" "synth example_chat = []"
    by (simp_all add: example_chat_def chat_init_queue)
  have cl: "cl_selectedVoice (speak_closure_of example_chat) = None"
    "cl_speechRate (speak_closure_of example_chat) = 1"
    by (simp_all add: speak_closure_of_def example_chat_def chat_init_def countdown_effects_def)
  show ?thesis
    by (simp add: speakText_starts rule_not_blank strip_marks_rule idle cl)
qed

end
